theory Spec2Isabelle
  imports Complex_Main "HOL-Library.Sublist" "HOL-Library.AList" "HOL-Library.Char_ord"
    "HOL-Library.List_Lexorder"
begin

section \<open>Errors\<close>

text \<open>
  The exceptions the two scripts raise or receive from their libraries. \<open>RequestException\<close>
  stands for what \<open>session.get\<close> raises (connection failure, timeout), \<open>HTTPError\<close> for
  \<open>raise_for_status\<close>.
\<close>

datatype error =
    ValidationError string
  | ValueError string
  | RequestException
  | HTTPError nat
  | ZeroDivisionError

section \<open>RateLimiter (LightNovelScraper.py)\<close>

text \<open>
  Times are seconds on the real line: \<open>datetime.now()\<close> is a reading supplied by the
  caller of the model, and \<open>(now - last).total_seconds()\<close> is the difference of two
  readings. \<open>failed_attempts\<close> starts at 0 and is only incremented or reset, so it is a
  natural number. \<open>last_request_times\<close> is a \<open>deque(maxlen=10)\<close>.
\<close>

record RateLimiter =
  rate :: real
  min_interval :: real
  last_request_times :: "real list"
  failed_attempts :: nat

definition DEFAULT_REQUESTS_PER_SECOND :: real where
  "DEFAULT_REQUESTS_PER_SECOND = 20"

definition RateLimiter_init :: "real \<Rightarrow> error + RateLimiter" where
  "RateLimiter_init requests_per_second =
     (if requests_per_second = 0 then Inl ZeroDivisionError
      else Inr \<lparr> rate = requests_per_second,
                 min_interval = 1 / requests_per_second,
                 last_request_times = [],
                 failed_attempts = 0 \<rparr>)"

text \<open>\<open>deque.append\<close> with \<open>maxlen\<close>: the oldest entry falls out on the left.\<close>

definition deque_append :: "nat \<Rightarrow> 'a list \<Rightarrow> 'a \<Rightarrow> 'a list" where
  "deque_append maxlen d x =
     (let d' = d @ [x] in drop (length d' - maxlen) d')"

text \<open>The value of the local variable \<open>wait_time\<close> when \<open>wait\<close> reaches its sleep test.\<close>

definition wait_time :: "RateLimiter \<Rightarrow> real \<Rightarrow> real" where
  "wait_time rl now =
     (let w = (if last_request_times rl \<noteq> []
               then max 0 (min_interval rl - (now - last (last_request_times rl)))
               else 0)
      in if failed_attempts rl > 0
         then w + min 300 (2 ^ failed_attempts rl - 1)
         else w)"

text \<open>
  \<open>wait\<close> returns the sleeps it performed (none when \<open>wait_time\<close> is not positive) and
  the limiter with \<open>now\<close> appended.
\<close>

definition wait :: "RateLimiter \<Rightarrow> real \<Rightarrow> real list \<times> RateLimiter" where
  "wait rl now =
     (let w = wait_time rl now
      in ((if w > 0 then [w] else []),
          rl\<lparr> last_request_times := deque_append 10 (last_request_times rl) now \<rparr>))"

definition record_failure :: "RateLimiter \<Rightarrow> RateLimiter" where
  "record_failure rl = rl\<lparr> failed_attempts := failed_attempts rl + 1 \<rparr>"

definition record_success :: "RateLimiter \<Rightarrow> RateLimiter" where
  "record_success rl = rl\<lparr> failed_attempts := 0 \<rparr>"

text \<open>A history of method calls on one limiter, applied in order.\<close>

datatype rl_call = Wait real | RecordFailure | RecordSuccess

fun rl_apply :: "RateLimiter \<Rightarrow> rl_call \<Rightarrow> RateLimiter" where
  "rl_apply rl (Wait now) = snd (wait rl now)"
| "rl_apply rl RecordFailure = record_failure rl"
| "rl_apply rl RecordSuccess = record_success rl"

section \<open>Text\<close>

text \<open>
  A Python \<open>str\<close> is modelled by its UTF-8 bytes. Substring and prefix tests against
  the ASCII and UTF-8 constants of the source are then tests on byte lists, and the
  order of strings is the order of their byte lists. Three operations depend on the
  Unicode character database. \<open>str.strip\<close> and the class \<open>\s\<close> take the characters whose
  \<open>isspace()\<close> holds, all of which are listed below by their encodings. The case
  mapping \<open>str.lower\<close> and the class \<open>\d\<close> (every character of category Nd, in any
  script) are tables of the Python runtime: they are the two fields of the parameter
  \<open>unicode\<close> that the functions below take, \<open>decimal_digits\<close> being the encodings of the
  characters that \<open>\d\<close> matches.
\<close>

record unicode =
  lower :: "string \<Rightarrow> string"
  decimal_digits :: "string list"

definition py_whitespace :: "string list" where
  "py_whitespace =
     [[CHR 0x09], [CHR 0x0A], [CHR 0x0B], [CHR 0x0C], [CHR 0x0D],
      [CHR 0x1C], [CHR 0x1D], [CHR 0x1E], [CHR 0x1F], [CHR 0x20],
      [CHR 0xC2, CHR 0x85], [CHR 0xC2, CHR 0xA0],
      [CHR 0xE1, CHR 0x9A, CHR 0x80],
      [CHR 0xE2, CHR 0x80, CHR 0x80], [CHR 0xE2, CHR 0x80, CHR 0x81],
      [CHR 0xE2, CHR 0x80, CHR 0x82], [CHR 0xE2, CHR 0x80, CHR 0x83],
      [CHR 0xE2, CHR 0x80, CHR 0x84], [CHR 0xE2, CHR 0x80, CHR 0x85],
      [CHR 0xE2, CHR 0x80, CHR 0x86], [CHR 0xE2, CHR 0x80, CHR 0x87],
      [CHR 0xE2, CHR 0x80, CHR 0x88], [CHR 0xE2, CHR 0x80, CHR 0x89],
      [CHR 0xE2, CHR 0x80, CHR 0x8A],
      [CHR 0xE2, CHR 0x80, CHR 0xA8], [CHR 0xE2, CHR 0x80, CHR 0xA9],
      [CHR 0xE2, CHR 0x80, CHR 0xAF], [CHR 0xE2, CHR 0x81, CHR 0x9F],
      [CHR 0xE3, CHR 0x80, CHR 0x80]]"

text \<open>
  \<open>ws_len seqs s\<close>: the number of bytes of the whitespace character at the head of
  \<open>s\<close>, 0 when \<open>s\<close> does not start with one.
\<close>

definition ws_len :: "string list \<Rightarrow> string \<Rightarrow> nat" where
  "ws_len seqs s = (case find (\<lambda>w. prefix w s) seqs of Some w \<Rightarrow> length w | None \<Rightarrow> 0)"

function lstrip_with :: "string list \<Rightarrow> string \<Rightarrow> string" where
  "lstrip_with seqs s =
     (if ws_len seqs s = 0 \<or> s = [] then s else lstrip_with seqs (drop (ws_len seqs s) s))"
  by pat_completeness auto
termination
  by (relation "measure (\<lambda>(seqs, s). length s)") auto

definition lstrip :: "string \<Rightarrow> string" where
  "lstrip s = lstrip_with py_whitespace s"

definition rstrip :: "string \<Rightarrow> string" where
  "rstrip s = rev (lstrip_with (map rev py_whitespace) (rev s))"

definition strip :: "string \<Rightarrow> string" where
  "strip s = rstrip (lstrip s)"

text \<open>
  \<open>skip_digits u s\<close>: what follows the longest run of decimal digits at the head of \<open>s\<close>
  (the greedy \<open>\d*\<close>); \<open>take_digits u s\<close> is that run.
\<close>

definition skip_digits :: "unicode \<Rightarrow> string \<Rightarrow> string" where
  "skip_digits u s = lstrip_with (decimal_digits u) s"

definition take_digits :: "unicode \<Rightarrow> string \<Rightarrow> string" where
  "take_digits u s = take (length s - length (skip_digits u s)) s"

text \<open>\<open>pat in s\<close> and \<open>s.startswith(pat)\<close>.\<close>

fun py_in :: "string \<Rightarrow> string \<Rightarrow> bool" where
  "py_in pat [] = (pat = [])"
| "py_in pat (c # cs) = (prefix pat (c # cs) \<or> py_in pat cs)"

definition startswith :: "string \<Rightarrow> string \<Rightarrow> bool" where
  "startswith s pat = prefix pat s"

text \<open>\<open>sep.join(xs)\<close>.\<close>

fun join :: "string \<Rightarrow> string list \<Rightarrow> string" where
  "join sep [] = []"
| "join sep [x] = x"
| "join sep (x # y # ys) = x @ sep @ join sep (y # ys)"

text \<open>
  \<open>re.sub(open .*? close, '', s)\<close> for literal \<open>open\<close> and \<open>close\<close>. \<open>find_close\<close> is the
  lazy \<open>.*?\<close> followed by \<open>close\<close>: it returns what follows the nearest \<open>close\<close>, and
  fails at a newline unless \<open>dotall\<close> is set. \<open>sub_between\<close> scans left to right, removes
  a match where one starts and otherwise keeps the character and moves on.
\<close>

fun find_close :: "string \<Rightarrow> bool \<Rightarrow> string \<Rightarrow> string option" where
  "find_close close dotall [] = (if close = [] then Some [] else None)"
| "find_close close dotall (c # cs) =
     (if prefix close (c # cs) then Some (drop (length close) (c # cs))
      else if \<not> dotall \<and> c = CHR 0x0A then None
      else find_close close dotall cs)"

lemma find_close_length: "find_close close dotall s = Some r \<Longrightarrow> length r \<le> length s"
  by (induction s) (auto split: if_splits)

function sub_between :: "string \<Rightarrow> string \<Rightarrow> bool \<Rightarrow> string \<Rightarrow> string" where
  "sub_between opn close dotall [] = []"
| "sub_between opn close dotall (c # cs) =
     (if opn \<noteq> [] \<and> prefix opn (c # cs) then
        (case find_close close dotall (drop (length opn) (c # cs)) of
           Some r \<Rightarrow> sub_between opn close dotall r
         | None \<Rightarrow> c # sub_between opn close dotall cs)
      else c # sub_between opn close dotall cs)"
  by pat_completeness auto
termination
proof (relation "measure (\<lambda>(opn, close, dotall, s). length s)")
  fix opn close :: string and dotall :: bool and c :: char and cs r :: string
  assume opn: "opn \<noteq> [] \<and> prefix opn (c # cs)"
    and r: "find_close close dotall (drop (length opn) (c # cs)) = Some r"
  from r have "length r \<le> length (drop (length opn) (c # cs))"
    by (rule find_close_length)
  moreover from opn have "Suc 0 \<le> length opn" by (cases opn) simp_all
  ultimately have "length r < length (c # cs)" by simp
  then show "((opn, close, dotall, r), (opn, close, dotall, c # cs))
      \<in> measure (\<lambda>(opn, close, dotall, s). length s)"
    by simp
qed simp_all

text \<open>
  The three patterns of \<open>_is_chapter_number\<close>, as \<open>re.match\<close> applies them. \<open>$\<close> matches
  at the end of the string and before a final newline. \<open>\d+\<close> and \<open>\s+\<close> are greedy, and
  giving characters back never helps these patterns, so each is decided by the maximal
  run; \<open>\d+\<close> has matched when the run is not empty.
\<close>

definition at_dollar :: "string \<Rightarrow> bool" where
  "at_dollar r = (r = [] \<or> r = [CHR 0x0A])"

definition match_digits :: "unicode \<Rightarrow> string \<Rightarrow> bool" where
  "match_digits u s = (take_digits u s \<noteq> [] \<and> at_dollar (skip_digits u s))"

definition match_chapter_digits :: "unicode \<Rightarrow> string \<Rightarrow> bool" where
  "match_chapter_digits u s =
     (prefix ''chapter'' s \<and>
      (let r = drop 7 s; r' = lstrip r in r' \<noteq> r \<and> match_digits u r'))"

definition match_digits_dot :: "unicode \<Rightarrow> string \<Rightarrow> bool" where
  "match_digits_dot u s =
     (take_digits u s \<noteq> [] \<and>
      (let r = skip_digits u s
       in at_dollar r \<or> (r \<noteq> [] \<and> hd r = CHR ''.'' \<and> at_dollar (tl r))))"

text \<open>\<open>re.search(r'chapter-(\d+)', url)\<close>: group 1 of the leftmost match.\<close>

fun search_chapter_number :: "unicode \<Rightarrow> string \<Rightarrow> string option" where
  "search_chapter_number u [] = None"
| "search_chapter_number u (c # cs) =
     (if prefix ''chapter-'' (c # cs) \<and> take_digits u (drop 8 (c # cs)) \<noteq> []
      then Some (take_digits u (drop 8 (c # cs)))
      else search_chapter_number u cs)"

section \<open>The parsed document\<close>

text \<open>
  What BeautifulSoup hands to the scripts. A string of the tree has a class: \<open>Text\<close> is a
  plain \<open>NavigableString\<close>, \<open>Comment\<close> a comment, and \<open>Special\<close> a string of one of the
  other classes, which the parser gives to a CDATA section and to the strings inside
  \<open>style\<close>, \<open>script\<close>, \<open>template\<close>, \<open>rt\<close> and \<open>rp\<close> elements. An element has a name,
  attributes (a \<open>dict\<close>: the keys are distinct) and children. A document (the
  \<open>BeautifulSoup\<close> object) is the list of its top-level nodes. Processing instructions,
  declarations and doctypes are not part of the model. The parser itself is a library:
  the functions below that call \<open>BeautifulSoup(markup, 'html.parser')\<close> take it as the
  parameter \<open>parse\<close>.
\<close>

datatype string_class =
    CData | Stylesheet | Script | TemplateString | RubyTextString | RubyParenthesisString

datatype node =
    Text string
  | Comment string
  | Special string_class string
  | Elem string "(string \<times> string) list" "node list"

type_synonym parser = "string \<Rightarrow> node list"

text \<open>
  \<open>element.text\<close> joins the strings below the element whose class is one of the
  element's \<open>interesting_string_types\<close>: plain strings and CDATA for an ordinary element,
  and for an element that is a string container only the strings of its own class.
  \<open>text_under cls n\<close> is the part of that text inside \<open>n\<close>, for an element whose
  container class is \<open>cls\<close> (\<open>None\<close> for an ordinary element).
\<close>

definition string_containers :: "(string \<times> string_class) list" where
  "string_containers =
     [(''rt'', RubyTextString), (''rp'', RubyParenthesisString), (''style'', Stylesheet),
      (''script'', Script), (''template'', TemplateString)]"

fun text_under :: "string_class option \<Rightarrow> node \<Rightarrow> string" where
  "text_under cls (Text s) = (if cls = None then s else [])"
| "text_under cls (Comment s) = []"
| "text_under cls (Special c s) =
     (if cls = None then (if c = CData then s else [])
      else if cls = Some c then s else [])"
| "text_under cls (Elem name attrs kids) = concat (map (text_under cls) kids)"

fun text_of :: "node \<Rightarrow> string" where
  "text_of (Elem name attrs kids) =
     text_under (map_of string_containers name) (Elem name attrs kids)"
| "text_of (Text s) = text_under None (Text s)"
| "text_of (Comment s) = text_under None (Comment s)"
| "text_of (Special c s) = text_under None (Special c s)"

fun contents :: "node \<Rightarrow> node list" where
  "contents (Elem name attrs kids) = kids"
| "contents (Text s) = []"
| "contents (Comment s) = []"
| "contents (Special c s) = []"

text \<open>Descendants in document order, as \<open>find_all\<close> and \<open>select\<close> visit them.\<close>

fun descendants :: "node \<Rightarrow> node list" where
  "descendants (Elem name attrs kids) = concat (map (\<lambda>k. k # descendants k) kids)"
| "descendants (Text s) = []"
| "descendants (Comment s) = []"
| "descendants (Special c s) = []"

definition descendants_of :: "node list \<Rightarrow> node list" where
  "descendants_of ns = concat (map (\<lambda>k. k # descendants k) ns)"

fun is_tag :: "string list \<Rightarrow> node \<Rightarrow> bool" where
  "is_tag names (Elem name attrs kids) = (name \<in> set names)"
| "is_tag names (Text s) = False"
| "is_tag names (Comment s) = False"
| "is_tag names (Special c s) = False"

definition find_all :: "string list \<Rightarrow> node list \<Rightarrow> node list" where
  "find_all names ns = filter (is_tag names) (descendants_of ns)"

fun attr :: "string \<Rightarrow> node \<Rightarrow> string option" where
  "attr a (Elem name attrs kids) = map_of attrs a"
| "attr a (Text s) = None"
| "attr a (Comment s) = None"
| "attr a (Special c s) = None"

text \<open>The whitespace-separated tokens of an attribute value (the \<open>class\<close> list).\<close>

function tokens :: "string \<Rightarrow> string \<Rightarrow> string list" where
  "tokens cur [] = (if cur = [] then [] else [cur])"
| "tokens cur (c # cs) =
     (if ws_len py_whitespace (c # cs) = 0 then tokens (cur @ [c]) cs
      else (if cur = [] then [] else [cur])
           @ tokens [] (drop (ws_len py_whitespace (c # cs)) (c # cs)))"
  by pat_completeness auto
termination
  by (relation "measure (\<lambda>(cur, s). length s)") auto

definition has_class :: "string \<Rightarrow> node \<Rightarrow> bool" where
  "has_class c n = (case attr ''class'' n of None \<Rightarrow> False | Some v \<Rightarrow> c \<in> set (tokens [] v))"

text \<open>The three forms of selector the scripts pass to \<open>select\<close>.\<close>

datatype selector = ByTag string | ByClass string | ByTagAttr string string

fun matches :: "selector \<Rightarrow> node \<Rightarrow> bool" where
  "matches (ByTag t) n = is_tag [t] n"
| "matches (ByClass c) n = has_class c n"
| "matches (ByTagAttr t a) n = (is_tag [t] n \<and> attr a n \<noteq> None)"

text \<open>
  \<open>element.decompose()\<close> for every element a selector matches: the matching elements
  go, with everything below them.
\<close>

fun decompose :: "(node \<Rightarrow> bool) \<Rightarrow> node \<Rightarrow> node" where
  "decompose P (Elem name attrs kids) =
     Elem name attrs (map (decompose P) (filter (\<lambda>k. \<not> P k) kids))"
| "decompose P (Text s) = Text s"
| "decompose P (Comment s) = Comment s"
| "decompose P (Special c s) = Special c s"

definition decompose_all :: "(node \<Rightarrow> bool) \<Rightarrow> node list \<Rightarrow> node list" where
  "decompose_all P ns = map (decompose P) (filter (\<lambda>k. \<not> P k) ns)"

text \<open>
  \<open>str(element)\<close> with the default formatter. Attributes are written sorted by name, the
  value quoted with double quotes unless it contains one. \<open>&\<close>, \<open><\<close> and \<open>>\<close> are escaped
  in attribute values and in strings, except in a string whose parent is a \<open>script\<close> or
  \<open>style\<close> element; a comment and a CDATA section are written between their marks as
  they are. A childless void element is written \<open><br/>\<close>. \<open>render_under parent n\<close> is
  the output for \<open>n\<close> as a child of an element named \<open>parent\<close>; a top-level node is a
  child of the document object.
\<close>

definition escape :: "string \<Rightarrow> string" where
  "escape s = concat (map (\<lambda>c. if c = CHR ''&'' then ''&amp;''
                               else if c = CHR ''<'' then ''&lt;''
                               else if c = CHR ''>'' then ''&gt;''
                               else [c]) s)"

definition quoted_attribute_value :: "string \<Rightarrow> string" where
  "quoted_attribute_value v =
     (if CHR 0x22 \<in> set v then
        (if CHR 0x27 \<in> set v
         then [CHR 0x22] @ concat (map (\<lambda>c. if c = CHR 0x22 then ''&quot;'' else [c]) v)
              @ [CHR 0x22]
         else [CHR 0x27] @ v @ [CHR 0x27])
      else [CHR 0x22] @ v @ [CHR 0x22])"

definition render_attrs :: "(string \<times> string) list \<Rightarrow> string" where
  "render_attrs attrs =
     concat (map (\<lambda>(k, v). '' '' @ k @ ''='' @ quoted_attribute_value (escape v))
               (sort_key fst attrs))"

definition cdata_containing_tags :: "string list" where
  "cdata_containing_tags = [''script'', ''style'']"

definition substitute :: "string \<Rightarrow> string \<Rightarrow> string" where
  "substitute parent s = (if parent \<in> set cdata_containing_tags then s else escape s)"

definition empty_element_tags :: "string list" where
  "empty_element_tags =
     [''area'', ''base'', ''br'', ''col'', ''embed'', ''hr'', ''img'', ''input'', ''keygen'',
      ''link'', ''menuitem'', ''meta'', ''param'', ''source'', ''track'', ''wbr'',
      ''basefont'', ''bgsound'', ''command'', ''frame'', ''image'', ''isindex'', ''nextid'',
      ''spacer'']"

fun render_under :: "string \<Rightarrow> node \<Rightarrow> string" where
  "render_under parent (Text s) = substitute parent s"
| "render_under parent (Comment s) = ''<!--'' @ s @ ''-->''"
| "render_under parent (Special c s) =
     (if c = CData then ''<![CDATA['' @ s @ '']]>'' else substitute parent s)"
| "render_under parent (Elem name attrs kids) =
     (if kids = [] \<and> name \<in> set empty_element_tags
      then ''<'' @ name @ render_attrs attrs @ ''/>''
      else ''<'' @ name @ render_attrs attrs @ ''>''
           @ concat (map (render_under name) kids) @ ''</'' @ name @ ''>'')"

definition render :: "node \<Rightarrow> string" where
  "render n = render_under ''[document]'' n"

definition render_all :: "node list \<Rightarrow> string" where
  "render_all ns = concat (map render ns)"

section \<open>Configuration\<close>

record Config =
  INCLUDE_FOOTNOTES :: bool
  INCLUDE_CHAPTER_NOTES :: bool
  SIMPLE_CHAPTER_NAMES :: bool
  DEBUG_MODE :: bool

text \<open>
  A footnote table is a Python \<open>dict\<close>: keys are unique and keep the order of their
  first insertion; assigning to a present key replaces its value in place
  (\<open>AList.update\<close>).
\<close>

type_synonym footnote_table = "(string \<times> string) list"

definition has_key :: "footnote_table \<Rightarrow> string \<Rightarrow> bool" where
  "has_key fn k = (map_of fn k \<noteq> None)"

section \<open>The pattern-based classifier (LightNovelScraper.py)\<close>

definition clean_html_content :: "parser \<Rightarrow> node \<Rightarrow> node list" where
  "clean_html_content parse content_div =
     (let content_str = render content_div;
          content_str = sub_between ''<!--sse-->'' ''<!--/sse-->'' True content_str;
          content_div = parse content_str
      in foldl (\<lambda>doc selector. decompose_all (matches selector) doc) content_div
           [ByTag ''script'', ByClass ''CTGIiSmv'', ByClass ''L-MHncuP'',
            ByClass ''vm-placement'', ByTagAttr ''div'' ''data-defid'',
            ByTagAttr ''div'' ''data-mobid''])"

definition is_chapter_number :: "unicode \<Rightarrow> string \<Rightarrow> bool" where
  "is_chapter_number u text =
     (let text = strip text
      in match_digits u (lower u text) \<or> match_chapter_digits u (lower u text)
         \<or> match_digits_dot u (lower u text))"

definition is_note_or_message :: "unicode \<Rightarrow> string \<Rightarrow> node \<Rightarrow> bool" where
  "is_note_or_message u text p_element =
     (list_ex (\<lambda>strong.
          list_ex (\<lambda>note_type. py_in note_type (lower u (strip (text_of strong))))
            [''translator'' @ [CHR 0x27] @ ''s note'', ''translator note'',
             ''chapter note'', ''t/n'', ''note''])
        (find_all [''strong'', ''b''] (contents p_element))
      \<or> list_ex (\<lambda>pattern. py_in pattern (lower u text))
           [''t/n:'', ''tn:'', ''t/l:'', ''tl:'',
            ''translator'' @ [CHR 0x27] @ ''s note:'', ''translator note:'',
            ''chapter note:'', ''chapter note by'',
            ''thanks for playing'', ''as always''])"

text \<open>The local variables of \<open>_process_content\<close> that its loop updates.\<close>

record content_state =
  paragraphs :: "string list"
  after_separator :: "string list"
  footnotes :: footnote_table
  debug_notes :: "string list"
  found_separator :: bool

definition is_start_note :: "string \<Rightarrow> bool" where
  "is_start_note text = (startswith text ''T/L:'' \<or> startswith text ''T/N:'')"

definition is_footnote_text :: "string \<Rightarrow> bool" where
  "is_footnote_text text =
     (list_ex (\<lambda>i. startswith text [i, CHR ''.'']) ''123456789'' \<and> py_in '':'' text)"

definition is_end_note :: "unicode \<Rightarrow> string \<Rightarrow> node \<Rightarrow> bool" where
  "is_end_note u text p =
     (py_in ''T/N:'' text \<or> py_in ''Chapter Note:'' text \<or>
      py_in ''Thanks for playing'' text \<or> py_in ''As always'' text \<or>
      is_note_or_message u text p)"

text \<open>One pass of the loop body over the paragraph \<open>p\<close>.\<close>

definition process_paragraph ::
  "unicode \<Rightarrow> Config \<Rightarrow> content_state \<Rightarrow> node \<Rightarrow> content_state" where
  "process_paragraph u cfg st p =
     (let text = strip (text_of p) in
      if text = [] then st
      else if is_start_note text then
        st\<lparr> after_separator :=
              (if INCLUDE_CHAPTER_NOTES cfg then after_separator st @ [render p]
               else after_separator st),
            debug_notes := debug_notes st @ [''Start note: '' @ render p] \<rparr>
      else if is_footnote_text text then
        st\<lparr> footnotes :=
              (if INCLUDE_FOOTNOTES cfg
               then AList.update (takeWhile (\<lambda>c. c \<noteq> CHR ''.'') text) text (footnotes st)
               else footnotes st),
            debug_notes := debug_notes st @ [''Footnote: '' @ text] \<rparr>
      else if is_end_note u text p then
        st\<lparr> found_separator := True,
            after_separator :=
              (if INCLUDE_CHAPTER_NOTES cfg then after_separator st @ [render p]
               else after_separator st),
            debug_notes := debug_notes st @ [''End note: '' @ render p] \<rparr>
      else if \<not> is_chapter_number u text then
        st\<lparr> paragraphs := paragraphs st @ [render p] \<rparr>
      else st)"

definition initial_content_state :: content_state where
  "initial_content_state =
     \<lparr> paragraphs = [], after_separator = [], footnotes = [], debug_notes = [],
       found_separator = False \<rparr>"

definition process_content ::
  "unicode \<Rightarrow> parser \<Rightarrow> Config \<Rightarrow> node
     \<Rightarrow> string list \<times> string list \<times> footnote_table \<times> string list" where
  "process_content u parse cfg content_div =
     (let content_div = clean_html_content parse content_div;
          st = foldl (process_paragraph u cfg) initial_content_state
                 (find_all [''p''] content_div)
      in (paragraphs st, after_separator st, footnotes st, debug_notes st))"

section \<open>Formatting the narrative (both scripts)\<close>

text \<open>
  \<open>for sup in soup_p.find_all('sup'): if sup.text.strip() in footnotes: sup.wrap(a)\<close>.
  \<open>find_all\<close> returns every \<open>sup\<close> element below the document, nested ones too, and
  the loop visits each once. \<open>wrap\<close> puts the element inside a new \<open>a\<close> element at the
  element's own place; it changes no element's text and adds no \<open>sup\<close>. The loop is
  therefore the recursion over the tree that rebuilds each element from its processed
  children and wraps it when it is a \<open>sup\<close> whose text is a key.
\<close>

fun wrap_footnote_refs :: "footnote_table \<Rightarrow> node \<Rightarrow> node" where
  "wrap_footnote_refs fn (Elem name attrs kids) =
     (let sup = Elem name attrs (map (wrap_footnote_refs fn) kids);
          ref_num = strip (text_of (Elem name attrs kids))
      in if name = ''sup'' \<and> has_key fn ref_num
         then Elem ''a'' [(''href'', ''#footnote-'' @ ref_num)] [sup]
         else sup)"
| "wrap_footnote_refs fn (Text s) = Text s"
| "wrap_footnote_refs fn (Comment s) = Comment s"
| "wrap_footnote_refs fn (Special c s) = Special c s"

definition format_paragraph :: "parser \<Rightarrow> Config \<Rightarrow> footnote_table \<Rightarrow> string \<Rightarrow> string" where
  "format_paragraph parse cfg fn p =
     (if INCLUDE_FOOTNOTES cfg
      then render_all (map (wrap_footnote_refs fn) (parse p))
      else sub_between ''<sup>'' ''</sup>'' False p)"

definition format_chapter_content ::
  "parser \<Rightarrow> Config \<Rightarrow> string list \<Rightarrow> footnote_table \<Rightarrow> string" where
  "format_chapter_content parse cfg ps fn =
     (let processed_paragraphs =
            foldl (\<lambda>acc p. acc @ [format_paragraph parse cfg fn p]) [] ps
      in join [CHR 0x0A] processed_paragraphs)"

section \<open>Fetching a chapter (LightNovelScraper.py)\<close>

text \<open>
  The world outside one call of \<open>get_chapter_content\<close>: for each attempt, the clock
  reading \<open>datetime.now()\<close> that \<open>wait\<close> takes and what \<open>session.get\<close> does. The trace
  records the calls that reach outside, in order; the two \<open>time.sleep\<close> call sites are
  kept apart.
\<close>

datatype response = Raises | Response nat string

type_synonym world = "nat \<Rightarrow> real \<times> response"

datatype event = RateLimitSleep real | Get string | RetrySleep nat

type_synonym chapter_result =
  "string option \<times> string option \<times> string list option \<times> footnote_table option"

definition all_None :: chapter_result where
  "all_None = (None, None, None, None)"

definition MAX_RETRIES :: nat where
  "MAX_RETRIES = 3"

text \<open>
  \<open>urlparse\<close> is a library function: it is a parameter that yields the scheme and the
  network location, or \<open>None\<close> where it raises.
\<close>

type_synonym urlparser = "string \<Rightarrow> (string \<times> string) option"

definition validate_url :: "urlparser \<Rightarrow> string \<Rightarrow> bool" where
  "validate_url urlparse url =
     (case urlparse url of
        None \<Rightarrow> False
      | Some (scheme, netloc) \<Rightarrow> scheme \<noteq> [] \<and> netloc \<noteq> [])"

definition process_chapter_title ::
  "unicode \<Rightarrow> Config \<Rightarrow> node option \<Rightarrow> string \<Rightarrow> string option" where
  "process_chapter_title u cfg title_elem url =
     (case title_elem of
        None \<Rightarrow> None
      | Some e \<Rightarrow>
          if SIMPLE_CHAPTER_NAMES cfg then
            (case search_chapter_number u url of
               Some n \<Rightarrow> Some (''Chapter '' @ n)
             | None \<Rightarrow> Some (strip (text_of e)))
          else Some (strip (text_of e)))"

definition find_title_elem :: "node list \<Rightarrow> node option" where
  "find_title_elem soup =
     find (\<lambda>n. is_tag [''span''] n \<and> has_class ''chapter-title'' n) (descendants_of soup)"

definition find_content_div :: "node list \<Rightarrow> node option" where
  "find_content_div soup =
     find (\<lambda>n. is_tag [''div''] n \<and> attr ''id'' n = Some ''chapter-container'')
       (descendants_of soup)"

text \<open>
  The body of the \<open>try\<close> block after \<open>rate_limiter.wait()\<close>: \<open>Inl\<close> is the exception that
  reaches the \<open>except\<close> clause, \<open>Inr\<close> the tuple that is returned.
\<close>

definition attempt_body ::
  "unicode \<Rightarrow> parser \<Rightarrow> Config \<Rightarrow> string \<Rightarrow> response \<Rightarrow> error + chapter_result" where
  "attempt_body u parse cfg url reply =
     (case reply of
        Raises \<Rightarrow> Inl RequestException
      | Response status body \<Rightarrow>
          if 400 \<le> status \<and> status < 600 then Inl (HTTPError status)
          else if strip body = [] then Inl (ValueError ''Empty response received'')
          else
            let soup = parse body in
            (case process_chapter_title u cfg (find_title_elem soup) url of
               None \<Rightarrow> Inl (ValueError ''Chapter title not found'')
             | Some chapter_title \<Rightarrow>
                 if chapter_title = [] then Inl (ValueError ''Chapter title not found'')
                 else
                   (case find_content_div soup of
                      None \<Rightarrow> Inl (ValueError ''Content container not found'')
                    | Some content_div \<Rightarrow>
                        (case process_content u parse cfg content_div of
                           (ps, after, fn, dbg) \<Rightarrow>
                             if length ps = 0
                             then Inl (ValueError ''No valid content found'')
                             else Inr (Some chapter_title,
                                       Some (format_chapter_content parse cfg ps fn),
                                       Some after, Some fn)))))"

text \<open>
  The \<open>for attempt in range(MAX_RETRIES)\<close> loop, from \<open>attempt\<close> on, with the limiter and
  the trace so far. The last branch is the \<open>return\<close> after the loop.
\<close>

function get_chapter_loop ::
  "unicode \<Rightarrow> parser \<Rightarrow> Config \<Rightarrow> string \<Rightarrow> world \<Rightarrow> nat \<Rightarrow> RateLimiter \<Rightarrow> event list
     \<Rightarrow> chapter_result \<times> RateLimiter \<times> event list" where
  "get_chapter_loop u parse cfg url env attempt rl evs =
     (if attempt < MAX_RETRIES then
        (case wait rl (fst (env attempt)) of
           (slept, rl) \<Rightarrow>
             let evs = evs @ map RateLimitSleep slept @ [Get url] in
             (case attempt_body u parse cfg url (snd (env attempt)) of
                Inr result \<Rightarrow> (result, record_success rl, evs)
              | Inl e \<Rightarrow>
                  let rl = record_failure rl in
                  if attempt < MAX_RETRIES - 1
                  then get_chapter_loop u parse cfg url env (attempt + 1) rl
                         (evs @ [RetrySleep ((attempt + 1) * 5)])
                  else (all_None, rl, evs)))
      else (all_None, rl, evs))"
  by pat_completeness auto
termination
  by (relation
        "measure (\<lambda>(u, parse, cfg, url, env, attempt, rl, evs). MAX_RETRIES - attempt)")
     auto

definition get_chapter_content ::
  "unicode \<Rightarrow> urlparser \<Rightarrow> parser \<Rightarrow> Config \<Rightarrow> string \<Rightarrow> world \<Rightarrow> RateLimiter
     \<Rightarrow> error + chapter_result \<times> RateLimiter \<times> event list" where
  "get_chapter_content u urlparse parse cfg url env rl =
     (if \<not> validate_url urlparse url then Inl (ValidationError ''Invalid chapter URL'')
      else Inr (get_chapter_loop u parse cfg url env 0 rl []))"

section \<open>The driver (LightNovelScraper.py)\<close>

text \<open>
  The chapter bounds in \<open>get_user_input\<close>. \<open>args.start\<close> and \<open>args.end\<close> are the parsed
  command-line integers (\<open>None\<close> when the option is absent); the test
  \<open>if args.start and args.end\<close> is Python truthiness, which 0 fails as \<open>None\<close> does.
  \<open>typed_start\<close> and \<open>typed_end\<close> are the results of \<open>int(input(...))\<close> at the two prompts,
  \<open>None\<close> where \<open>int\<close> raises \<open>ValueError\<close>.
\<close>

definition truthy_int :: "int option \<Rightarrow> bool" where
  "truthy_int a = (case a of None \<Rightarrow> False | Some n \<Rightarrow> n \<noteq> 0)"

definition chapter_bounds ::
  "int option \<Rightarrow> int option \<Rightarrow> int option \<Rightarrow> int option \<Rightarrow> error + int \<times> int" where
  "chapter_bounds args_start args_end typed_start typed_end =
     (if truthy_int args_start \<and> truthy_int args_end
      then Inr (the args_start, the args_end)
      else
        (case typed_start of
           None \<Rightarrow> Inl (ValidationError ''Please enter valid chapter numbers'')
         | Some start_chapter \<Rightarrow>
             (case typed_end of
                None \<Rightarrow> Inl (ValidationError ''Please enter valid chapter numbers'')
              | Some end_chapter \<Rightarrow>
                  if start_chapter > end_chapter
                  then Inl (ValidationError
                              ''Start chapter cannot be greater than end chapter'')
                  else Inr (start_chapter, end_chapter))))"

text \<open>\<open>str(n)\<close> for an integer, as the f-string that builds the chapter URL prints it.\<close>

function str_nat :: "nat \<Rightarrow> string" where
  "str_nat n = (if n < 10 then [''0123456789'' ! n]
                else str_nat (n div 10) @ [''0123456789'' ! (n mod 10)])"
  by pat_completeness auto
termination
  by (relation "measure id") auto

definition str_int :: "int \<Rightarrow> string" where
  "str_int i = (if i < 0 then ''-'' @ str_nat (nat (- i)) else str_nat (nat i))"

definition chapter_url :: "string \<Rightarrow> string \<Rightarrow> int \<Rightarrow> string" where
  "chapter_url base_url novel_id chapter_num =
     base_url @ novel_id @ ''/chapter-'' @ str_int chapter_num"

text \<open>\<open>range(start_chapter, end_chapter + 1)\<close>.\<close>

definition chapter_numbers :: "int \<Rightarrow> int \<Rightarrow> int list" where
  "chapter_numbers start_chapter end_chapter = [start_chapter..end_chapter]"

text \<open>
  The chapter loop of \<open>main\<close>, over the remaining chapter numbers. Each chapter has its
  own world. \<open>chapters_data\<close> collects the records of the chapters that succeeded,
  \<open>progress\<close> the argument of each \<open>progress.update\<close> call (\<open>False\<close> is the warning
  \<open>Failed to process chapter\<close>). An exception that leaves \<open>get_chapter_content\<close> leaves the
  loop too: \<open>main\<close> catches it only around its whole body.
\<close>

record ChapterData =
  title :: string
  content :: string
  chapter_notes :: "string list"
  chapter_footnotes :: footnote_table

record run_state =
  rate_limiter :: RateLimiter
  chapters_data :: "ChapterData list"
  progress :: "bool list"
  trace :: "event list"

fun scrape_chapters ::
  "unicode \<Rightarrow> urlparser \<Rightarrow> parser \<Rightarrow> Config \<Rightarrow> string \<Rightarrow> string \<Rightarrow> (int \<Rightarrow> world)
     \<Rightarrow> int list \<Rightarrow> run_state \<Rightarrow> error + run_state" where
  "scrape_chapters u urlparse parse cfg base_url novel_id envs [] st = Inr st"
| "scrape_chapters u urlparse parse cfg base_url novel_id envs (chapter_num # rest) st =
     (case get_chapter_content u urlparse parse cfg
             (chapter_url base_url novel_id chapter_num) (envs chapter_num)
             (rate_limiter st) of
        Inl e \<Rightarrow> Inl e
      | Inr ((chapter_title, chapter_content, after, fn), rl, evs) \<Rightarrow>
          scrape_chapters u urlparse parse cfg base_url novel_id envs rest
            (if chapter_title \<noteq> None \<and> chapter_title \<noteq> Some []
                \<and> chapter_content \<noteq> None \<and> chapter_content \<noteq> Some []
             then st\<lparr> rate_limiter := rl,
                      chapters_data := chapters_data st @
                        [\<lparr> title = the chapter_title, content = the chapter_content,
                           chapter_notes = (case after of None \<Rightarrow> [] | Some ns \<Rightarrow> ns),
                           chapter_footnotes =
                             (case fn of None \<Rightarrow> [] | Some f \<Rightarrow> f) \<rparr>],
                      progress := progress st @ [True],
                      trace := trace st @ evs \<rparr>
             else st\<lparr> rate_limiter := rl,
                      progress := progress st @ [False],
                      trace := trace st @ evs \<rparr>))"

section \<open>The separator-based script (lightnovelScraper_Simple.py)\<close>

text \<open>Its rate limiter has no failure counter and sleeps only for the interval.\<close>

record SimpleRateLimiter =
  s_rate :: real
  s_min_interval :: real
  s_last_request_times :: "real list"

definition simple_wait :: "SimpleRateLimiter \<Rightarrow> real \<Rightarrow> real list \<times> SimpleRateLimiter" where
  "simple_wait rl now =
     ((if s_last_request_times rl \<noteq> []
          \<and> now - last (s_last_request_times rl) < s_min_interval rl
       then [max 0 (s_min_interval rl - (now - last (s_last_request_times rl)))]
       else []),
      rl\<lparr> s_last_request_times := deque_append 10 (s_last_request_times rl) now \<rparr>)"

text \<open>The local variables that the paragraph loop of its \<open>get_chapter_content\<close> updates.\<close>

record simple_state =
  s_paragraphs :: "string list"
  s_after_separator :: "string list"
  s_footnotes :: footnote_table
  found_first_separator :: bool
  in_main_content :: bool

definition return_marker :: string where
  "return_marker = [CHR 0xE2, CHR 0x86, CHR 0xA9]"

definition simple_paragraph :: "Config \<Rightarrow> simple_state \<Rightarrow> node \<Rightarrow> simple_state" where
  "simple_paragraph cfg st p =
     (let text = strip (text_of p) in
      if text = [] then st
      else if text = ''||'' then
        (if \<not> found_first_separator st then st\<lparr> found_first_separator := True \<rparr>
         else st\<lparr> in_main_content := False \<rparr>)
      else if in_main_content st then
        st\<lparr> s_paragraphs := s_paragraphs st @ [render p] \<rparr>
      else if py_in return_marker text \<and> INCLUDE_FOOTNOTES cfg then
        st\<lparr> s_footnotes :=
              foldl (\<lambda>fn ref.
                       let ref_num = strip (text_of ref)
                       in if \<not> has_key fn ref_num then fn @ [(ref_num, text)] else fn)
                (s_footnotes st) (find_all [''sup''] (contents p)) \<rparr>
      else if INCLUDE_CHAPTER_NOTES cfg then
        st\<lparr> s_after_separator := s_after_separator st @ [text] \<rparr>
      else st)"

definition initial_simple_state :: simple_state where
  "initial_simple_state =
     \<lparr> s_paragraphs = [], s_after_separator = [], s_footnotes = [],
       found_first_separator = False, in_main_content = True \<rparr>"

definition simple_selectors :: "selector list" where
  "simple_selectors =
     [ByTag ''script'', ByTag ''ins'', ByTag ''iframe'', ByClass ''adsbox'', ByClass ''ads'',
      ByClass ''ad-container'', ByClass ''aoyveLDZ'', ByClass ''vm-placement'',
      ByTagAttr ''div'' ''data-defid'']"

text \<open>Cleaning and the paragraph loop: what the script extracts from the container.\<close>

definition simple_clean :: "node \<Rightarrow> node" where
  "simple_clean content_div =
     decompose (\<lambda>n. list_ex (\<lambda>sel. matches sel n) simple_selectors) content_div"

definition simple_extract ::
  "Config \<Rightarrow> node \<Rightarrow> string list \<times> string list \<times> footnote_table" where
  "simple_extract cfg content_div =
     (let content_div = simple_clean content_div;
          st = foldl (simple_paragraph cfg) initial_simple_state
                 (find_all [''p''] (contents content_div))
      in (s_paragraphs st, s_after_separator st, s_footnotes st))"

text \<open>
  The body of its \<open>try\<close> block after \<open>rate_limiter.wait()\<close>: \<open>Inl\<close> is an exception, \<open>Inr\<close>
  a returned tuple, which is \<open>all_None\<close> at the three early returns.
\<close>

definition simple_attempt_body ::
  "unicode \<Rightarrow> parser \<Rightarrow> Config \<Rightarrow> string \<Rightarrow> response \<Rightarrow> error + chapter_result" where
  "simple_attempt_body u parse cfg url reply =
     (case reply of
        Raises \<Rightarrow> Inl RequestException
      | Response status body \<Rightarrow>
          if 400 \<le> status \<and> status < 600 then Inl (HTTPError status)
          else if strip body = []
          then Inl (ValueError ''Empty response received from server'')
          else
            let soup = parse body in
            (case process_chapter_title u cfg (find_title_elem soup) url of
               None \<Rightarrow> Inr all_None
             | Some chapter_title \<Rightarrow>
                 if chapter_title = [] then Inr all_None
                 else
                   (case find_content_div soup of
                      None \<Rightarrow> Inr all_None
                    | Some content_div \<Rightarrow>
                        (case simple_extract cfg content_div of
                           (ps, after, fn) \<Rightarrow>
                             if ps = [] then Inr all_None
                             else Inr (Some chapter_title,
                                       Some (format_chapter_content parse cfg ps fn),
                                       Some after, Some fn)))))"

definition simple_max_retries :: nat where
  "simple_max_retries = 3"

function simple_get_chapter_loop ::
  "unicode \<Rightarrow> parser \<Rightarrow> Config \<Rightarrow> string \<Rightarrow> world \<Rightarrow> nat \<Rightarrow> SimpleRateLimiter
     \<Rightarrow> event list \<Rightarrow> chapter_result \<times> SimpleRateLimiter \<times> event list" where
  "simple_get_chapter_loop u parse cfg url env attempt rl evs =
     (if attempt < simple_max_retries then
        (case simple_wait rl (fst (env attempt)) of
           (slept, rl) \<Rightarrow>
             let evs = evs @ map RateLimitSleep slept @ [Get url] in
             (case simple_attempt_body u parse cfg url (snd (env attempt)) of
                Inr result \<Rightarrow> (result, rl, evs)
              | Inl e \<Rightarrow>
                  if attempt < simple_max_retries - 1
                  then simple_get_chapter_loop u parse cfg url env (attempt + 1) rl
                         (evs @ [RetrySleep ((attempt + 1) * 5)])
                  else (all_None, rl, evs)))
      else (all_None, rl, evs))"
  by pat_completeness auto
termination
  by (relation
        "measure (\<lambda>(u, parse, cfg, url, env, attempt, rl, evs).
                    simple_max_retries - attempt)")
     auto

definition simple_get_chapter_content ::
  "unicode \<Rightarrow> parser \<Rightarrow> Config \<Rightarrow> string \<Rightarrow> world \<Rightarrow> SimpleRateLimiter
     \<Rightarrow> chapter_result \<times> SimpleRateLimiter \<times> event list" where
  "simple_get_chapter_content u parse cfg url env rl =
     simple_get_chapter_loop u parse cfg url env 0 rl []"

section \<open>Notions used in the statements\<close>

text \<open>
  A paragraph of the pattern-based classifier is narrative when it has text and none of
  the four tests of the loop body fires on it.
\<close>

definition narrative :: "unicode \<Rightarrow> node \<Rightarrow> bool" where
  "narrative u p =
     (let text = strip (text_of p)
      in text \<noteq> [] \<and> \<not> is_start_note text \<and> \<not> is_footnote_text text
         \<and> \<not> is_end_note u text p \<and> \<not> is_chapter_number u text)"

text \<open>The entry a paragraph adds to \<open>debug_notes\<close>: what the classifier detected.\<close>

definition debug_entry :: "unicode \<Rightarrow> node \<Rightarrow> string list" where
  "debug_entry u p =
     (let text = strip (text_of p) in
      if text = [] then []
      else if is_start_note text then [''Start note: '' @ render p]
      else if is_footnote_text text then [''Footnote: '' @ text]
      else if is_end_note u text p then [''End note: '' @ render p]
      else [])"

text \<open>
  A bare number: a non-empty text that decimal digits, read from the left, use up. These
  are the trimmed texts that \<open>^\d+$\<close> matches.
\<close>

definition bare_number :: "unicode \<Rightarrow> string \<Rightarrow> bool" where
  "bare_number u t = (t \<noteq> [] \<and> skip_digits u t = [])"

definition is_separator :: "node \<Rightarrow> bool" where
  "is_separator p = (strip (text_of p) = ''||'')"

definition has_text :: "node \<Rightarrow> bool" where
  "has_text p = (strip (text_of p) \<noteq> [])"

text \<open>The \<open>sup\<close> elements at or below a node whose trimmed text is a key of the table.\<close>

definition matched_sups :: "footnote_table \<Rightarrow> node \<Rightarrow> node list" where
  "matched_sups fn n =
     filter (\<lambda>e. is_tag [''sup''] e \<and> has_key fn (strip (text_of e))) (n # descendants n)"


fun is_rate_limit_sleep :: "event \<Rightarrow> bool" where
  "is_rate_limit_sleep (RateLimitSleep w) = True"
| "is_rate_limit_sleep (Get url) = False"
| "is_rate_limit_sleep (RetrySleep n) = False"

text \<open>
  What the zone logic of the separator-based loop depends on: the narrative collected so
  far and the two mode variables.
\<close>

definition zone_view :: "simple_state \<Rightarrow> string list \<times> bool \<times> bool" where
  "zone_view st = (s_paragraphs st, found_first_separator st, in_main_content st)"


definition visible :: "event list \<Rightarrow> event list" where
  "visible tr = filter (\<lambda>e. \<not> is_rate_limit_sleep e) tr"

text \<open>The \<open>a\<close> elements at or below a node.\<close>

definition anchors :: "node \<Rightarrow> node list" where
  "anchors n = filter (is_tag [''a'']) (n # descendants n)"

text \<open>
  The test \<open>if chapter_title and content\<close> of \<open>main\<close> on a returned tuple, the record
  \<open>main\<close> appends when the test holds, and what the fetches of a run return, chapter by
  chapter, when the chapter URLs are valid: each call starts from the limiter that the
  call before it left.
\<close>

definition succeeded :: "chapter_result \<Rightarrow> bool" where
  "succeeded r =
     (case r of (chapter_title, chapter_content, after, fn) \<Rightarrow>
        chapter_title \<noteq> None \<and> chapter_title \<noteq> Some []
        \<and> chapter_content \<noteq> None \<and> chapter_content \<noteq> Some [])"

definition record_of :: "chapter_result \<Rightarrow> ChapterData" where
  "record_of r =
     (case r of (chapter_title, chapter_content, after, fn) \<Rightarrow>
        \<lparr> title = the chapter_title, content = the chapter_content,
          chapter_notes = (case after of None \<Rightarrow> [] | Some ns \<Rightarrow> ns),
          chapter_footnotes = (case fn of None \<Rightarrow> [] | Some f \<Rightarrow> f) \<rparr>)"

fun fetch_results ::
  "unicode \<Rightarrow> parser \<Rightarrow> Config \<Rightarrow> string \<Rightarrow> string \<Rightarrow> (int \<Rightarrow> world) \<Rightarrow> int list
     \<Rightarrow> RateLimiter \<Rightarrow> chapter_result list" where
  "fetch_results u parse cfg base_url novel_id envs [] rl = []"
| "fetch_results u parse cfg base_url novel_id envs (chapter_num # rest) rl =
     (case get_chapter_loop u parse cfg (chapter_url base_url novel_id chapter_num)
             (envs chapter_num) 0 rl [] of
        (result, rl', evs) \<Rightarrow>
          result # fetch_results u parse cfg base_url novel_id envs rest rl')"

section \<open>Fixtures\<close>

text \<open>
  A stand-in for the parser on the finitely many markup strings of an example: a table
  from markup to the document \<open>html.parser\<close> builds for it.
\<close>

definition parse_as :: "(string \<times> node list) list \<Rightarrow> parser" where
  "parse_as table markup = (case map_of table markup of Some doc \<Rightarrow> doc | None \<Rightarrow> [])"

text \<open>
  A small character database: the case mapping of the ASCII letters, and as decimal
  digits the ASCII digits and the fullwidth digits U+FF10 to U+FF19.
\<close>

definition lower_char :: "char \<Rightarrow> char" where
  "lower_char c =
     (case map_of (zip ''ABCDEFGHIJKLMNOPQRSTUVWXYZ'' ''abcdefghijklmnopqrstuvwxyz'') c of
        Some d \<Rightarrow> d
      | None \<Rightarrow> c)"

definition fullwidth_digits :: "string list" where
  "fullwidth_digits =
     map (\<lambda>c. [CHR 0xEF, CHR 0xBC, c])
       [CHR 0x90, CHR 0x91, CHR 0x92, CHR 0x93, CHR 0x94,
        CHR 0x95, CHR 0x96, CHR 0x97, CHR 0x98, CHR 0x99]"

definition small_unicode :: unicode where
  "small_unicode =
     \<lparr> lower = map lower_char,
       decimal_digits = map (\<lambda>c. [c]) ''0123456789'' @ fullwidth_digits \<rparr>"

definition flags :: "bool \<Rightarrow> bool \<Rightarrow> Config" where
  "flags include_footnotes include_chapter_notes =
     \<lparr> INCLUDE_FOOTNOTES = include_footnotes,
       INCLUDE_CHAPTER_NOTES = include_chapter_notes,
       SIMPLE_CHAPTER_NAMES = False, DEBUG_MODE = False \<rparr>"

definition container :: "node list \<Rightarrow> node" where
  "container kids = Elem ''div'' [(''id'', ''chapter-container'')] kids"

definition para :: "string \<Rightarrow> node" where
  "para s = Elem ''p'' [] [Text s]"

definition container_open :: string where
  "container_open = ''<div id='' @ [CHR 0x22] @ ''chapter-container'' @ [CHR 0x22] @ ''>''"

text \<open>A translator's note followed by a line of story.\<close>

definition note_fragment :: node where
  "note_fragment = container [para ''T/N: hi'', para ''Once upon a time'']"

definition note_parser :: parser where
  "note_parser =
     parse_as [(container_open @ ''<p>T/N: hi</p><p>Once upon a time</p></div>'',
                [note_fragment])]"

text \<open>A line of story followed by a paragraph that is only a number.\<close>

definition number_fragment :: node where
  "number_fragment = container [para ''Once upon a time'', para ''12'']"

definition number_parser :: parser where
  "number_parser =
     parse_as [(container_open @ ''<p>Once upon a time</p><p>12</p></div>'',
                [number_fragment])]"

text \<open>The number 12 in fullwidth digits, and a paragraph 12 that carries a style element.\<close>

definition fullwidth_12 :: string where
  "fullwidth_12 = [CHR 0xEF, CHR 0xBC, CHR 0x91, CHR 0xEF, CHR 0xBC, CHR 0x92]"

definition styled_12 :: node where
  "styled_12 = Elem ''p'' [] [Text ''12'', Elem ''style'' [] [Special Stylesheet ''x'']]"

text \<open>Five paragraphs: an introduction, \<open>||\<close>, the story, \<open>||\<close>, a closing remark.\<close>

definition separator_fragment :: node where
  "separator_fragment =
     container [para ''intro'', para ''||'', para ''story'', para ''||'', para ''thanks'']"

text \<open>
  A URL parser that knows one site, a chapter URL on it, a world in which every request
  raises (the clock reads 0, 10 and 30 seconds at the three attempts), and a limiter as
  the scraper constructs it.
\<close>

definition example_urlparse :: urlparser where
  "example_urlparse url =
     (if prefix ''http://example.org/'' url then Some (''http'', ''example.org'') else None)"

definition example_url :: string where
  "example_url = ''http://example.org/novel/chapter-1''"

definition failing_world :: world where
  "failing_world k = (if k = 0 then 0 else if k = 1 then 10 else 30, Raises)"

definition fresh_limiter :: RateLimiter where
  "fresh_limiter =
     \<lparr> rate = 20, min_interval = 1 / 20, last_request_times = [], failed_attempts = 0 \<rparr>"


text \<open>
  A page with a title and a chapter container that holds no paragraph, the parser on its
  markup, a world that serves it at every attempt, and the limiter of the separator-based
  script.
\<close>

definition empty_page :: "node list" where
  "empty_page =
     [Elem ''html'' []
        [Elem ''span'' [(''class'', ''chapter-title'')] [Text ''Chapter 1''], container []]]"

definition empty_page_parser :: parser where
  "empty_page_parser =
     parse_as [(render_all empty_page, empty_page), (render (container []), [container []])]"

definition empty_page_world :: world where
  "empty_page_world k =
     (if k = 0 then 0 else if k = 1 then 10 else 30, Response 200 (render_all empty_page))"

definition simple_limiter :: SimpleRateLimiter where
  "simple_limiter = \<lparr> s_rate = 2, s_min_interval = 1 / 2, s_last_request_times = [] \<rparr>"

text \<open>
  A page with a title and one paragraph of story, the parser on its markup, a world that
  serves it, a driver state before the first chapter, and the worlds of a run of two
  chapters in which every request for chapter 1 raises.
\<close>

definition story_page :: "node list" where
  "story_page =
     [Elem ''html'' []
        [Elem ''span'' [(''class'', ''chapter-title'')] [Text ''Chapter 2''],
         container [para ''Once upon a time'']]]"

definition story_parser :: parser where
  "story_parser =
     parse_as [(render_all story_page, story_page),
               (render (container [para ''Once upon a time'']),
                [container [para ''Once upon a time'']])]"

definition story_world :: world where
  "story_world k = (40, Response 200 (render_all story_page))"

definition initial_run :: run_state where
  "initial_run = \<lparr> rate_limiter = fresh_limiter, chapters_data = [], progress = [], trace = [] \<rparr>"

definition two_chapter_worlds :: "int \<Rightarrow> world" where
  "two_chapter_worlds n = (if n = 1 then failing_world else story_world)"

text \<open>
  The paragraph of the footnote example as a string, the document the parser builds for
  it, the same paragraph with its reference linked, a parser that knows the paragraph, a
  paragraph with several \<open>sup\<close> elements (one of them nested), and a footnote table with
  the keys 1 and 2.
\<close>

definition sup_paragraph :: string where
  "sup_paragraph = ''<p>text<sup>1</sup></p>''"

definition sup_paragraph_doc :: "node list" where
  "sup_paragraph_doc = [Elem ''p'' [] [Text ''text'', Elem ''sup'' [] [Text ''1'']]]"

definition linked_paragraph :: string where
  "linked_paragraph =
     ''<p>text<a href='' @ [CHR 0x22] @ ''#footnote-1'' @ [CHR 0x22] @ ''><sup>1</sup></a></p>''"

definition sup_parser :: parser where
  "sup_parser = parse_as [(sup_paragraph, sup_paragraph_doc)]"

definition nested_sups :: node where
  "nested_sups =
     Elem ''p'' [(''class'', ''x'')]
       [Text ''a'', Elem ''sup'' [] [Text '' 1 ''], Comment ''c'',
        Elem ''sup'' [] [Text ''9''],
        Elem ''sup'' [(''id'', ''r'')] [Text ''2'', Elem ''sup'' [] [Text ''2'']]]"

definition two_notes :: footnote_table where
  "two_notes = [(''1'', ''1. one: a''), (''2'', ''2. two: b'')]"


section \<open>Properties of the rate limiter\<close>

lemma rl_apply_interval:
  "min_interval (rl_apply rl c) = min_interval rl \<and> rate (rl_apply rl c) = rate rl"
  by (cases c) (simp_all add: wait_def record_failure_def record_success_def Let_def)

lemma foldl_rl_apply_interval:
  "min_interval (foldl rl_apply rl cs) = min_interval rl \<and>
   rate (foldl rl_apply rl cs) = rate rl"
  by (induction cs arbitrary: rl) (simp_all add: rl_apply_interval)

lemma RateLimiter_init_interval:
  "RateLimiter_init r = Inr rl0 \<Longrightarrow> min_interval rl0 = 1 / rate rl0 \<and> rate rl0 = r"
  by (auto simp: RateLimiter_init_def split: if_splits)

lemma deque_append_last: "last (deque_append 10 d x) = x"
  by (simp add: deque_append_def Let_def)

text \<open>
  C5. On a limiter built by the constructor with rate \<open>r\<close> and then used through any
  history of calls: \<open>wait\<close> sleeps for \<open>wait_time\<close> exactly when it is positive, and
  \<open>wait_time\<close> is \<open>max(0, 1/r - elapsed)\<close> with \<open>elapsed\<close> measured from the last recorded
  request (0 when none is recorded), plus \<open>min(300, 2^failed_attempts - 1)\<close> whenever
  the failure counter is positive; \<open>record_success\<close> sets the counter to 0 and
  \<open>record_failure\<close> adds exactly 1.
\<close>

theorem rate_limiter_contract:
  assumes "RateLimiter_init r = Inr rl0" and "rl = foldl rl_apply rl0 calls"
  shows "wait_time rl now =
           (if last_request_times rl = [] then 0
            else max 0 (1 / r - (now - last (last_request_times rl))))
           + (if failed_attempts rl > 0 then min 300 (2 ^ failed_attempts rl - 1) else 0)
         \<and> fst (wait rl now) = (if wait_time rl now > 0 then [wait_time rl now] else [])
         \<and> last (last_request_times (snd (wait rl now))) = now
         \<and> failed_attempts (record_success rl) = 0
         \<and> failed_attempts (record_failure rl) = failed_attempts rl + 1"
proof -
  from assms have mi: "min_interval rl = 1 / r"
    using RateLimiter_init_interval [OF assms(1)] foldl_rl_apply_interval [of rl0 calls]
    by simp
  have "wait_time rl now =
           (if last_request_times rl = [] then 0
            else max 0 (1 / r - (now - last (last_request_times rl))))
           + (if failed_attempts rl > 0 then min 300 (2 ^ failed_attempts rl - 1) else 0)"
    by (simp add: wait_time_def mi Let_def)
  moreover have "fst (wait rl now) = (if wait_time rl now > 0 then [wait_time rl now] else [])"
    by (simp add: wait_def Let_def)
  moreover have "last (last_request_times (snd (wait rl now))) = now"
    by (simp add: wait_def Let_def deque_append_last)
  moreover have "failed_attempts (record_success rl) = 0"
    by (simp add: record_success_def)
  moreover have "failed_attempts (record_failure rl) = failed_attempts rl + 1"
    by (simp add: record_failure_def)
  ultimately show ?thesis by blast
qed

text \<open>
  A limiter at 20 requests per second whose last request was at time 0 and that has
  seen two failures: 10 ms later \<open>wait\<close> sleeps 0.04 s for the interval plus 3 s of
  penalty.
\<close>

theorem rate_limiter_contract_witness:
  "RateLimiter_init 20 =
     Inr \<lparr> rate = 20, min_interval = 1 / 20, last_request_times = [], failed_attempts = 0 \<rparr>
   \<and> wait_time (foldl rl_apply
        \<lparr> rate = 20, min_interval = 1 / 20, last_request_times = [], failed_attempts = 0 \<rparr>
        [Wait 0, RecordFailure, RecordFailure]) (1 / 100) = 304 / 100
   \<and> failed_attempts (record_success (foldl rl_apply
        \<lparr> rate = 20, min_interval = 1 / 20, last_request_times = [], failed_attempts = 0 \<rparr>
        [Wait 0, RecordFailure, RecordFailure])) = 0
   \<and> failed_attempts (record_failure (foldl rl_apply
        \<lparr> rate = 20, min_interval = 1 / 20, last_request_times = [], failed_attempts = 0 \<rparr>
        [Wait 0, RecordFailure, RecordFailure])) = 3"
proof -
  have i: "RateLimiter_init 20 =
     Inr \<lparr> rate = 20, min_interval = 1 / 20, last_request_times = [], failed_attempts = 0 \<rparr>"
    by (simp add: RateLimiter_init_def)
  show ?thesis
    using rate_limiter_contract [OF i refl, of "[Wait 0, RecordFailure, RecordFailure]" "1 / 100"]
    by (simp add: RateLimiter_init_def wait_def record_failure_def deque_append_def Let_def)
qed

section \<open>Classification and the feature flags\<close>

lemma paragraphs_step:
  "paragraphs (process_paragraph u cfg st p)
     = paragraphs st @ (if narrative u p then [render p] else [])"
  by (simp add: process_paragraph_def narrative_def Let_def)

lemma paragraphs_foldl:
  "paragraphs (foldl (process_paragraph u cfg) st ps)
     = paragraphs st @ map render (filter (narrative u) ps)"
  by (induction ps arbitrary: st) (simp_all add: paragraphs_step)

lemma debug_notes_step:
  "debug_notes (process_paragraph u cfg st p) = debug_notes st @ debug_entry u p"
  by (simp add: process_paragraph_def debug_entry_def Let_def)

lemma debug_notes_foldl:
  "debug_notes (foldl (process_paragraph u cfg) st ps)
     = debug_notes st @ concat (map (debug_entry u) ps)"
  by (induction ps arbitrary: st) (simp_all add: debug_notes_step)

lemma footnotes_off_foldl:
  "\<not> INCLUDE_FOOTNOTES cfg \<Longrightarrow> footnotes (foldl (process_paragraph u cfg) st ps) = footnotes st"
  by (induction ps arbitrary: st) (simp_all add: process_paragraph_def Let_def)

lemma notes_off_foldl:
  "\<not> INCLUDE_CHAPTER_NOTES cfg \<Longrightarrow>
     after_separator (foldl (process_paragraph u cfg) st ps) = after_separator st"
  by (induction ps arbitrary: st) (simp_all add: process_paragraph_def Let_def)

lemma process_content_paragraphs:
  "fst (process_content u parse cfg content_div)
     = map render (filter (narrative u) (find_all [''p''] (clean_html_content parse content_div)))"
  by (simp add: process_content_def Let_def paragraphs_foldl initial_content_state_def)

lemma zone_view_step:
  "zone_view st = zone_view st' \<Longrightarrow>
     zone_view (simple_paragraph cfg st p) = zone_view (simple_paragraph cfg' st' p)"
  by (simp add: simple_paragraph_def zone_view_def Let_def)

lemma zone_view_foldl:
  "zone_view st = zone_view st' \<Longrightarrow>
     zone_view (foldl (simple_paragraph cfg) st ps) = zone_view (foldl (simple_paragraph cfg') st' ps)"
proof (induction ps arbitrary: st st')
  case Nil
  then show ?case by simp
next
  case (Cons p ps)
  show ?case
    using Cons.IH [OF zone_view_step [OF Cons.prems, of cfg p cfg']] by simp
qed

lemma simple_footnotes_off:
  "\<not> INCLUDE_FOOTNOTES cfg \<Longrightarrow> s_footnotes (foldl (simple_paragraph cfg) st ps) = s_footnotes st"
  by (induction ps arbitrary: st) (simp_all add: simple_paragraph_def Let_def)

lemma simple_notes_off:
  "\<not> INCLUDE_CHAPTER_NOTES cfg \<Longrightarrow>
     s_after_separator (foldl (simple_paragraph cfg) st ps) = s_after_separator st"
  by (induction ps arbitrary: st) (simp_all add: simple_paragraph_def Let_def)

text \<open>
  C1 (amended). The flags gate collection itself. Whatever the flags, the classifier
  returns the same narrative paragraphs (and, in the pattern-based script, detects the
  same notes and footnotes, as \<open>debug_notes\<close> records). But with
  \<open>INCLUDE_CHAPTER_NOTES\<close> off the returned notes are empty, and with
  \<open>INCLUDE_FOOTNOTES\<close> off the returned footnote table is empty, in both scripts.
\<close>

theorem flags_gate_collection:
  "fst (process_content u parse cfg content_div) = fst (process_content u parse cfg' content_div)
   \<and> snd (snd (snd (process_content u parse cfg content_div)))
       = snd (snd (snd (process_content u parse cfg' content_div)))
   \<and> (\<not> INCLUDE_CHAPTER_NOTES cfg \<longrightarrow> fst (snd (process_content u parse cfg content_div)) = [])
   \<and> (\<not> INCLUDE_FOOTNOTES cfg \<longrightarrow> fst (snd (snd (process_content u parse cfg content_div))) = [])
   \<and> fst (simple_extract cfg content_div) = fst (simple_extract cfg' content_div)
   \<and> (\<not> INCLUDE_CHAPTER_NOTES cfg \<longrightarrow> fst (snd (simple_extract cfg content_div)) = [])
   \<and> (\<not> INCLUDE_FOOTNOTES cfg \<longrightarrow> snd (snd (simple_extract cfg content_div)) = [])"
proof -
  have "zone_view (foldl (simple_paragraph cfg) initial_simple_state ps)
      = zone_view (foldl (simple_paragraph cfg') initial_simple_state ps)" for ps
    by (rule zone_view_foldl) simp
  then have simple: "fst (simple_extract cfg content_div) = fst (simple_extract cfg' content_div)"
    by (simp add: simple_extract_def Let_def zone_view_def)
  show ?thesis
    using simple
    by (simp add: process_content_def Let_def paragraphs_foldl debug_notes_foldl
        notes_off_foldl footnotes_off_foldl initial_content_state_def
        simple_extract_def simple_notes_off simple_footnotes_off initial_simple_state_def)
qed

text \<open>The note fragment, classified with both flags off and with both on.\<close>

theorem flags_gate_collection_witness:
  "fst (process_content small_unicode note_parser (flags False False) note_fragment)
     = fst (process_content small_unicode note_parser (flags True True) note_fragment)
   \<and> fst (snd (process_content small_unicode note_parser (flags False False) note_fragment)) = []
   \<and> fst (snd (snd (process_content small_unicode note_parser (flags False False) note_fragment))) = []
   \<and> fst (snd (simple_extract (flags False False) note_fragment)) = []
   \<and> snd (snd (simple_extract (flags False False) note_fragment)) = []"
  using flags_gate_collection [where u = small_unicode and parse = note_parser
      and cfg = "flags False False" and content_div = note_fragment and cfg' = "flags True True"]
  by (simp add: flags_def)

text \<open>
  C1 as stated fails: on the note fragment the pattern-based classifier returns the note
  when the flags are on and no note when they are off.
\<close>

theorem flags_identical_counterexample:
  "fst (snd (process_content small_unicode note_parser (flags True True) note_fragment)) = [''<p>T/N: hi</p>'']
   \<and> fst (snd (process_content small_unicode note_parser (flags False False) note_fragment)) = []"
  by code_simp

section \<open>Bare numbers\<close>

declare lstrip_with.simps [simp del]

lemma lstrip_with_fixed: "ws_len seqs s = 0 \<or> s = [] \<Longrightarrow> lstrip_with seqs s = s"
  by (subst lstrip_with.simps) simp

lemma lstrip_with_step:
  "\<not> (ws_len seqs s = 0 \<or> s = []) \<Longrightarrow>
     lstrip_with seqs s = lstrip_with seqs (drop (ws_len seqs s) s)"
  by (subst lstrip_with.simps) simp

lemma lstrip_with_done:
  "ws_len seqs (lstrip_with seqs s) = 0 \<or> lstrip_with seqs s = []"
proof (induction seqs s rule: lstrip_with.induct)
  case (1 seqs s)
  show ?case
  proof (cases "ws_len seqs s = 0 \<or> s = []")
    case True
    then show ?thesis by (auto simp: lstrip_with_fixed)
  next
    case False
    from "1.IH" [OF False] show ?thesis by (simp only: lstrip_with_step [OF False])
  qed
qed

lemma lstrip_with_idem: "lstrip_with seqs (lstrip_with seqs s) = lstrip_with seqs s"
  using lstrip_with_done [of seqs s] by (rule lstrip_with_fixed)

lemma lstrip_with_suffix: "suffix (lstrip_with seqs s) s"
proof (induction seqs s rule: lstrip_with.induct)
  case (1 seqs s)
  show ?case
  proof (cases "ws_len seqs s = 0 \<or> s = []")
    case True
    then show ?thesis by (simp add: lstrip_with_fixed)
  next
    case False
    from "1.IH" [OF False] have "suffix (lstrip_with seqs s) (drop (ws_len seqs s) s)"
      by (simp only: lstrip_with_step [OF False])
    then show ?thesis by (rule suffix_order.trans) (rule suffix_drop)
  qed
qed

lemma ws_len_zero:
  assumes "\<forall>w\<in>set seqs. w \<noteq> []"
  shows "ws_len seqs s = 0 \<longleftrightarrow> (\<forall>w\<in>set seqs. \<not> prefix w s)"
proof (cases "find (\<lambda>w. prefix w s) seqs")
  case None
  then have "\<forall>w\<in>set seqs. \<not> prefix w s" by (simp add: find_None_iff)
  moreover have "ws_len seqs s = 0" by (simp only: ws_len_def None option.case)
  ultimately show ?thesis by simp
next
  case (Some w)
  then have w: "w \<in> set seqs" "prefix w s"
    by (auto simp: find_Some_iff)
  have "ws_len seqs s = length w" by (simp only: ws_len_def Some option.case)
  with assms w show ?thesis by auto
qed

lemma ws_len_found:
  assumes "ws_len seqs s \<noteq> 0"
  shows "\<exists>w\<in>set seqs. s = w @ drop (ws_len seqs s) s"
proof (cases "find (\<lambda>w. prefix w s) seqs")
  case None
  have "ws_len seqs s = 0" by (simp only: ws_len_def None option.case)
  with assms show ?thesis by simp
next
  case (Some w)
  then have w: "w \<in> set seqs" "prefix w s"
    by (auto simp: find_Some_iff)
  have n: "ws_len seqs s = length w" by (simp only: ws_len_def Some option.case)
  from w(2) have "s = w @ drop (length w) s" by (auto simp: prefix_def)
  with w(1) n show ?thesis by auto
qed

lemma py_whitespace_nonempty: "\<forall>w\<in>set py_whitespace. w \<noteq> []"
  by (simp add: py_whitespace_def)

text \<open>\<open>strip\<close> leaves a text that is already trimmed as it is.\<close>

lemma strip_idem: "strip (strip x) = strip x"
proof -
  let ?R = "map rev py_whitespace"
  let ?a = "lstrip x"
  let ?y = "rstrip ?a"
  have rev_y: "rev ?y = lstrip_with ?R (rev ?a)" by (simp add: rstrip_def)
  have "suffix (rev ?y) (rev ?a)" unfolding rev_y by (rule lstrip_with_suffix)
  then have pre: "prefix ?y ?a" by (simp add: suffix_to_prefix)
  have "ws_len py_whitespace ?a = 0 \<or> ?a = []"
    unfolding lstrip_def by (rule lstrip_with_done)
  then have "ws_len py_whitespace ?y = 0 \<or> ?y = []"
  proof
    assume "ws_len py_whitespace ?a = 0"
    then have "\<forall>w\<in>set py_whitespace. \<not> prefix w ?a"
      by (simp add: ws_len_zero [OF py_whitespace_nonempty])
    with pre have "\<forall>w\<in>set py_whitespace. \<not> prefix w ?y"
      by (meson prefix_order.trans)
    then show ?thesis by (simp add: ws_len_zero [OF py_whitespace_nonempty])
  next
    assume "?a = []"
    with pre show ?thesis by simp
  qed
  then have l: "lstrip ?y = ?y" unfolding lstrip_def by (rule lstrip_with_fixed)
  have "rstrip ?y = rev (lstrip_with ?R (lstrip_with ?R (rev ?a)))"
    by (simp add: rstrip_def)
  also have "\<dots> = ?y" by (simp add: lstrip_with_idem rstrip_def)
  finally have r: "rstrip ?y = ?y" .
  show ?thesis by (simp add: strip_def l r)
qed

lemma bare_number_match_digits: "bare_number u t \<Longrightarrow> match_digits u t"
  by (simp add: bare_number_def match_digits_def take_digits_def at_dollar_def)

lemma bare_number_is_chapter_number:
  assumes "bare_number u (strip x)" and "lower u (strip x) = strip x"
  shows "is_chapter_number u (strip x)"
  using assms bare_number_match_digits [OF assms(1)]
  by (simp add: is_chapter_number_def Let_def strip_idem)

text \<open>
  In the small character database \<open>lower\<close> leaves every bare number as it is: no byte
  of a decimal digit is a capital letter.
\<close>

lemma small_digits_caseless:
  "\<forall>w\<in>set (decimal_digits small_unicode). map lower_char w = w"
  by (simp add: small_unicode_def fullwidth_digits_def lower_char_def)

lemma digits_only_caseless:
  "\<forall>w\<in>set seqs. map f w = w \<Longrightarrow> lstrip_with seqs s = [] \<Longrightarrow> map f s = s"
proof (induction seqs s rule: lstrip_with.induct)
  case (1 seqs s)
  note assms' = "1.prems"(1)
  show ?case
  proof (cases "ws_len seqs s = 0 \<or> s = []")
    case True
    with "1.prems"(2) show ?thesis by (simp add: lstrip_with_fixed)
  next
    case False
    then have n: "ws_len seqs s \<noteq> 0" by simp
    from ws_len_found [OF n] obtain w where
      w: "w \<in> set seqs" "s = w @ drop (ws_len seqs s) s" by blast
    from "1.prems"(2) have "lstrip_with seqs (drop (ws_len seqs s) s) = []"
      by (simp only: lstrip_with_step [OF False])
    with "1.IH" [OF False assms'] have
      "map f (drop (ws_len seqs s) s) = drop (ws_len seqs s) s"
      by simp
    moreover from assms' w(1) have "map f w = w" by simp
    ultimately have "map f (w @ drop (ws_len seqs s) s) = w @ drop (ws_len seqs s) s"
      by simp
    with w(2) show ?thesis by simp
  qed
qed

lemma small_unicode_caseless:
  "\<forall>t. bare_number small_unicode t \<longrightarrow> lower small_unicode t = t"
proof (intro allI impI)
  fix t
  assume "bare_number small_unicode t"
  then have "lstrip_with (decimal_digits small_unicode) t = []"
    by (simp add: bare_number_def skip_digits_def)
  with small_digits_caseless have "map lower_char t = t"
    by (rule digits_only_caseless)
  then show "lower small_unicode t = t" by (simp add: small_unicode_def)
qed

text \<open>
  C7 (amended). In the pattern-based script the narrative output is the markup of
  exactly the paragraphs that are \<open>narrative\<close>, and a paragraph whose trimmed text is a
  bare number, in the decimal digits of any script, is never one of them. This holds for
  every character database in which \<open>lower\<close> leaves a text of decimal digits as it is,
  as Python's does (no decimal digit has a case mapping). (The separator-based script
  has no such rule.)
\<close>

theorem bare_number_excluded:
  "fst (process_content u parse cfg content_div)
     = map render (filter (narrative u) (find_all [''p''] (clean_html_content parse content_div)))
   \<and> ((\<forall>t. bare_number u t \<longrightarrow> lower u t = t) \<and> bare_number u (strip (text_of p))
        \<longrightarrow> \<not> narrative u p)"
proof -
  have "\<not> narrative u p"
    if "\<forall>t. bare_number u t \<longrightarrow> lower u t = t" and "bare_number u (strip (text_of p))"
  proof -
    from that have "lower u (strip (text_of p)) = strip (text_of p)" by blast
    with that(2) have "is_chapter_number u (strip (text_of p))"
      by (rule bare_number_is_chapter_number)
    then show ?thesis by (simp add: narrative_def Let_def)
  qed
  then show ?thesis by (simp only: process_content_paragraphs) blast
qed

text \<open>
  The small character database changes no text of decimal digits. The paragraph \<open>12\<close>
  after a line of story: only the story is narrative. The number in fullwidth digits,
  and the number followed by a style element, are excluded as well.
\<close>

theorem bare_number_excluded_witness:
  "\<not> (\<exists>t. bare_number small_unicode t \<and> lower small_unicode t \<noteq> t)
   \<and> bare_number small_unicode (strip (text_of (para ''12'')))
   \<and> \<not> narrative small_unicode (para ''12'')
   \<and> bare_number small_unicode (strip (text_of (para fullwidth_12)))
   \<and> \<not> narrative small_unicode (para fullwidth_12)
   \<and> bare_number small_unicode (strip (text_of styled_12))
   \<and> \<not> narrative small_unicode styled_12
   \<and> fst (process_content small_unicode number_parser (flags False False) number_fragment)
       = [''<p>Once upon a time</p>'']"
proof -
  have b: "bare_number small_unicode (strip (text_of (para ''12'')))" by code_simp
  have f: "bare_number small_unicode (strip (text_of (para fullwidth_12)))" by code_simp
  have s: "bare_number small_unicode (strip (text_of styled_12))" by code_simp
  have c: "map render (filter (narrative small_unicode)
             (find_all [''p''] (clean_html_content number_parser number_fragment)))
           = [''<p>Once upon a time</p>'']" by code_simp
  show ?thesis
    using bare_number_excluded [where u = small_unicode and parse = number_parser
        and cfg = "flags False False" and content_div = number_fragment and p = "para ''12''"]
      bare_number_excluded [where u = small_unicode and p = "para fullwidth_12"]
      bare_number_excluded [where u = small_unicode and p = styled_12]
      small_unicode_caseless b f s c
    by (simp only: simp_thms not_ex de_Morgan_conj) blast
qed

text \<open>
  C7 as stated fails in the separator-based script: the same fragment keeps the paragraph
  \<open>12\<close> in its narrative.
\<close>

theorem bare_number_simple_counterexample:
  "bare_number small_unicode (strip (text_of (para ''12'')))
   \<and> fst (simple_extract (flags False False) number_fragment)
       = [''<p>Once upon a time</p>'', ''<p>12</p>'']"
  by code_simp

section \<open>The zones of the separator-based script\<close>

lemma simple_main_step:
  "in_main_content st \<Longrightarrow> \<not> is_separator p \<Longrightarrow>
     simple_paragraph cfg st p
       = st\<lparr> s_paragraphs := s_paragraphs st @ (if has_text p then [render p] else []) \<rparr>"
  by (simp add: simple_paragraph_def is_separator_def has_text_def Let_def)

lemma simple_main_segment:
  "in_main_content st \<Longrightarrow> \<forall>p\<in>set ps. \<not> is_separator p \<Longrightarrow>
     foldl (simple_paragraph cfg) st ps
       = st\<lparr> s_paragraphs := s_paragraphs st @ map render (filter has_text ps) \<rparr>"
proof (induction ps arbitrary: st)
  case Nil
  then show ?case by simp
next
  case (Cons p ps)
  let ?st = "st\<lparr> s_paragraphs := s_paragraphs st @ (if has_text p then [render p] else []) \<rparr>"
  from Cons.prems have step: "simple_paragraph cfg st p = ?st"
    by (simp add: simple_main_step)
  have "in_main_content ?st" using Cons.prems(1) by simp
  moreover from Cons.prems(2) have "\<forall>q\<in>set ps. \<not> is_separator q" by simp
  ultimately have "foldl (simple_paragraph cfg) ?st ps
      = ?st\<lparr> s_paragraphs := s_paragraphs ?st @ map render (filter has_text ps) \<rparr>"
    by (rule Cons.IH)
  with step show ?case by simp
qed

lemma simple_separator_step:
  "is_separator p \<Longrightarrow>
     simple_paragraph cfg st p
       = (if \<not> found_first_separator st then st\<lparr> found_first_separator := True \<rparr>
          else st\<lparr> in_main_content := False \<rparr>)"
  by (simp add: simple_paragraph_def is_separator_def Let_def)

lemma simple_trailing_step:
  "\<not> in_main_content st \<Longrightarrow>
     \<not> in_main_content (simple_paragraph cfg st p)
     \<and> s_paragraphs (simple_paragraph cfg st p) = s_paragraphs st"
  by (simp add: simple_paragraph_def Let_def)

lemma simple_trailing_segment:
  "\<not> in_main_content st \<Longrightarrow>
     s_paragraphs (foldl (simple_paragraph cfg) st ps) = s_paragraphs st"
proof (induction ps arbitrary: st)
  case Nil
  then show ?case by simp
next
  case (Cons p ps)
  from simple_trailing_step [OF Cons.prems, of cfg p]
  have a: "\<not> in_main_content (simple_paragraph cfg st p)"
    and b: "s_paragraphs (simple_paragraph cfg st p) = s_paragraphs st" by simp_all
  from Cons.IH [OF a] b show ?case by simp
qed

text \<open>
  C2 (amended). In the separator-based script the first \<open>||\<close> only sets a flag. When the
  paragraphs of the cleaned container are \<open>pre\<close>, a first \<open>||\<close>, \<open>mid\<close> and then either
  nothing or a second \<open>||\<close> with whatever follows it, the narrative is the markup of the
  paragraphs of \<open>pre\<close> and \<open>mid\<close> that have text: the paragraphs before the first \<open>||\<close>
  are narrative like those after it, no \<open>||\<close> paragraph is narrative, and nothing after
  the second \<open>||\<close> is.
\<close>

theorem separator_zones:
  assumes ps: "find_all [''p''] (contents (simple_clean content_div)) = pre @ [s1] @ mid @ rest"
    and nosep: "\<forall>p\<in>set (pre @ mid). \<not> is_separator p"
    and s1: "is_separator s1"
    and rest: "rest = [] \<or> is_separator (hd rest)"
  shows "fst (simple_extract cfg content_div) = map render (filter has_text (pre @ mid))"
proof -
  let ?f = "foldl (simple_paragraph cfg)"
  let ?st1 = "initial_simple_state\<lparr> s_paragraphs := map render (filter has_text pre) \<rparr>"
  let ?st2 = "?st1\<lparr> found_first_separator := True \<rparr>"
  let ?st3 = "?st2\<lparr> s_paragraphs := map render (filter has_text (pre @ mid)) \<rparr>"
  have 1: "?f initial_simple_state pre = ?st1"
    using nosep by (subst simple_main_segment) (simp_all add: initial_simple_state_def)
  have 2: "simple_paragraph cfg ?st1 s1 = ?st2"
    using s1 by (simp add: simple_separator_step initial_simple_state_def)
  have 3: "?f ?st2 mid = ?st3"
    using nosep by (subst simple_main_segment) (simp_all add: initial_simple_state_def)
  have 4: "s_paragraphs (?f ?st3 rest) = map render (filter has_text (pre @ mid))"
  proof (cases rest)
    case Nil
    then show ?thesis by simp
  next
    case (Cons s2 post)
    with rest have "is_separator s2" by simp
    then have "simple_paragraph cfg ?st3 s2 = ?st3\<lparr> in_main_content := False \<rparr>"
      by (simp add: simple_separator_step)
    moreover have "s_paragraphs (?f (?st3\<lparr> in_main_content := False \<rparr>) post)
        = s_paragraphs (?st3\<lparr> in_main_content := False \<rparr>)"
      by (rule simple_trailing_segment) simp
    ultimately show ?thesis using Cons by simp
  qed
  have "?f initial_simple_state (pre @ [s1] @ mid @ rest) = ?f ?st3 rest"
    by (simp only: foldl_append foldl_Cons foldl_Nil 1 2 3)
  with 4 show ?thesis by (simp add: simple_extract_def Let_def ps)
qed

text \<open>The separator fragment: \<open>intro\<close> and \<open>story\<close> are the narrative.\<close>

theorem separator_zones_witness:
  "find_all [''p''] (contents (simple_clean separator_fragment))
     = [para ''intro''] @ [para ''||''] @ [para ''story''] @ [para ''||'', para ''thanks'']
   \<and> is_separator (para ''||'')
   \<and> fst (simple_extract (flags True True) separator_fragment)
       = map render (filter has_text ([para ''intro''] @ [para ''story'']))"
proof -
  have a: "find_all [''p''] (contents (simple_clean separator_fragment))
     = [para ''intro''] @ [para ''||''] @ [para ''story''] @ [para ''||'', para ''thanks'']"
    by code_simp
  have b: "\<forall>p\<in>set ([para ''intro''] @ [para ''story'']). \<not> is_separator p" by code_simp
  have c: "is_separator (para ''||'')" by code_simp
  have d: "[para ''||'', para ''thanks''] = [] \<or> is_separator (hd [para ''||'', para ''thanks''])"
    using c by simp
  show ?thesis using separator_zones [OF a b c d] a c by blast
qed

text \<open>
  C2 as stated fails: \<open>intro\<close> stands before the first \<open>||\<close> and is returned as
  narrative.
\<close>

theorem leading_zone_counterexample:
  "find_all [''p''] (contents (simple_clean separator_fragment))
     = [para ''intro'', para ''||'', para ''story'', para ''||'', para ''thanks'']
   \<and> fst (simple_extract (flags True True) separator_fragment)
       = [''<p>intro</p>'', ''<p>story</p>'']"
  by code_simp

section \<open>The retry loop\<close>

declare get_chapter_loop.simps [simp del]
declare simple_get_chapter_loop.simps [simp del]

lemma visible_append: "visible (xs @ ys) = visible xs @ visible ys"
  by (simp add: visible_def)

lemma visible_sleeps: "visible (map RateLimitSleep ws) = []"
  by (simp add: visible_def)

lemma wait_failed_attempts: "failed_attempts (snd (wait rl now)) = failed_attempts rl"
  by (simp add: wait_def Let_def)

text \<open>One attempt of the loop, by the outcome of the body.\<close>

lemma loop_success:
  assumes "attempt < MAX_RETRIES"
    and "attempt_body u parse cfg url (snd (env attempt)) = Inr result"
  shows "get_chapter_loop u parse cfg url env attempt rl evs =
           (result, record_success (snd (wait rl (fst (env attempt)))),
            evs @ map RateLimitSleep (fst (wait rl (fst (env attempt)))) @ [Get url])"
  using assms by (subst get_chapter_loop.simps) (simp add: Let_def split: prod.split)

lemma loop_retry:
  assumes "attempt < MAX_RETRIES - 1"
    and "attempt_body u parse cfg url (snd (env attempt)) = Inl e"
  shows "get_chapter_loop u parse cfg url env attempt rl evs =
           get_chapter_loop u parse cfg url env (attempt + 1)
             (record_failure (snd (wait rl (fst (env attempt)))))
             (evs @ map RateLimitSleep (fst (wait rl (fst (env attempt))))
                  @ [Get url, RetrySleep ((attempt + 1) * 5)])"
proof -
  from assms(1) have "attempt < MAX_RETRIES" by simp
  with assms show ?thesis
    by (subst get_chapter_loop.simps) (simp add: Let_def split: prod.split)
qed

lemma loop_exhausted:
  assumes "attempt = MAX_RETRIES - 1"
    and "attempt_body u parse cfg url (snd (env attempt)) = Inl e"
  shows "get_chapter_loop u parse cfg url env attempt rl evs =
           (all_None, record_failure (snd (wait rl (fst (env attempt)))),
            evs @ map RateLimitSleep (fst (wait rl (fst (env attempt)))) @ [Get url])"
  using assms
  by (subst get_chapter_loop.simps) (simp add: Let_def MAX_RETRIES_def split: prod.split)




lemma all_fail_loop:
  assumes "\<forall>k<MAX_RETRIES. \<exists>e. attempt_body u parse cfg url (snd (env k)) = Inl e"
  shows "\<exists>rl' tr. get_chapter_loop u parse cfg url env 0 rl [] = (all_None, rl', tr @ [Get url])
           \<and> visible (tr @ [Get url]) = [Get url, RetrySleep 5, Get url, RetrySleep 10, Get url]
           \<and> failed_attempts rl' = failed_attempts rl + 3"
proof -
  from assms obtain e0 e1 e2 where
    e0: "attempt_body u parse cfg url (snd (env 0)) = Inl e0" and
    e1: "attempt_body u parse cfg url (snd (env (0 + 1))) = Inl e1" and
    e2: "attempt_body u parse cfg url (snd (env (0 + 1 + 1))) = Inl e2"
    unfolding MAX_RETRIES_def
    by (metis add.left_neutral lessI less_SucI numeral_3_eq_3 one_add_one numeral_2_eq_2 One_nat_def)
  have l0: "(0::nat) < MAX_RETRIES - 1" and l1: "(0::nat) + 1 < MAX_RETRIES - 1"
    and l2: "(0::nat) + 1 + 1 = MAX_RETRIES - 1"
    by (simp_all add: MAX_RETRIES_def)
  show ?thesis
    by (simp only: loop_retry [where env = env and attempt = 0, OF l0 e0]
          loop_retry [where env = env and attempt = "0 + 1", OF l1 e1]
          loop_exhausted [where env = env and attempt = "0 + 1 + 1", OF l2 e2])
       (simp add: visible_append visible_sleeps wait_failed_attempts record_failure_def,
        simp add: visible_def)
qed




section \<open>Attempts without narrative\<close>

lemma loop_done:
  "\<not> attempt < MAX_RETRIES \<Longrightarrow>
     get_chapter_loop u parse cfg url env attempt rl evs = (all_None, rl, evs)"
  by (subst get_chapter_loop.simps) simp

lemma loop_cong:
  assumes clock: "\<forall>k. fst (env k) = fst (env' k)"
    and body: "\<forall>k. attempt_body u parse cfg url (snd (env k))
                     = attempt_body u parse cfg url (snd (env' k))
                 \<or> (isl (attempt_body u parse cfg url (snd (env k)))
                    \<and> isl (attempt_body u parse cfg url (snd (env' k))))"
  shows "get_chapter_loop u parse cfg url env attempt rl evs
           = get_chapter_loop u parse cfg url env' attempt rl evs"
proof (induction "MAX_RETRIES - attempt" arbitrary: attempt rl evs)
  case 0
  then have "\<not> attempt < MAX_RETRIES" by simp
  then show ?case by (simp add: loop_done)
next
  case (Suc n)
  then have lt: "attempt < MAX_RETRIES" by simp
  from clock have c: "fst (env attempt) = fst (env' attempt)" by simp
  show ?case
  proof (cases "attempt_body u parse cfg url (snd (env attempt))")
    case (Inr result)
    with body have Inr': "attempt_body u parse cfg url (snd (env' attempt)) = Inr result"
      by (metis sum.disc(2))
    show ?thesis
      by (simp only: loop_success [where env = env and attempt = attempt, OF lt Inr]
            loop_success [where env = env' and attempt = attempt, OF lt Inr'] c)
  next
    case (Inl e)
    with body obtain e' where Inl': "attempt_body u parse cfg url (snd (env' attempt)) = Inl e'"
      by (metis isl_def)
    show ?thesis
    proof (cases "attempt < MAX_RETRIES - 1")
      case True
      have n: "n = MAX_RETRIES - (attempt + 1)" using Suc.hyps(2) by simp
      show ?thesis
        by (simp only: loop_retry [where env = env and attempt = attempt, OF True Inl]
            loop_retry [where env = env' and attempt = attempt, OF True Inl'] c
            Suc.hyps(1) [OF n])
    next
      case False
      with lt have last: "attempt = MAX_RETRIES - 1" by simp
      show ?thesis
        by (simp only: loop_exhausted [where env = env and attempt = attempt, OF last Inl]
            loop_exhausted [where env = env' and attempt = attempt, OF last Inl'] c)
    qed
  qed
qed

lemma attempt_body_Raises: "attempt_body u parse cfg url Raises = Inl RequestException"
  by (simp add: attempt_body_def)

text \<open>
  C3 (amended). Take an attempt whose response is read without error up to the content
  container. In LightNovelScraper.py, when classification yields no narrative paragraph
  the attempt raises inside the \<open>try\<close> block, and the retry loop then runs exactly as it
  does when the request of that attempt raises: before the last attempt it records the
  failure, sleeps \<open>5 (attempt + 1)\<close> seconds and goes on with the next attempt; at the
  last attempt it records the failure and returns all-\<open>None\<close>. In lightnovelScraper_Simple.py the attempt returns all-\<open>None\<close>, and
  the loop returns it at once, after that one fetch, without retry.
\<close>

theorem zero_narrative_attempt:
  assumes reply: "snd (env attempt) = Response status body"
    and status: "\<not> (400 \<le> status \<and> status < 600)"
    and body: "strip body \<noteq> []"
    and title: "process_chapter_title u cfg (find_title_elem (parse body)) url = Some chapter_title"
               "chapter_title \<noteq> []"
    and div: "find_content_div (parse body) = Some content_div"
  shows "(fst (process_content u parse cfg content_div) = [] \<longrightarrow>
            attempt_body u parse cfg url (snd (env attempt))
              = Inl (ValueError ''No valid content found'')
            \<and> get_chapter_loop u parse cfg url env attempt rl evs
              = get_chapter_loop u parse cfg url (env(attempt := (fst (env attempt), Raises)))
                  attempt rl evs
            \<and> (attempt < MAX_RETRIES - 1 \<longrightarrow>
                 get_chapter_loop u parse cfg url env attempt rl evs
                   = get_chapter_loop u parse cfg url env (attempt + 1)
                       (record_failure (snd (wait rl (fst (env attempt)))))
                       (evs @ map RateLimitSleep (fst (wait rl (fst (env attempt))))
                            @ [Get url, RetrySleep ((attempt + 1) * 5)]))
            \<and> (attempt = MAX_RETRIES - 1 \<longrightarrow>
                 get_chapter_loop u parse cfg url env attempt rl evs
                   = (all_None, record_failure (snd (wait rl (fst (env attempt)))),
                      evs @ map RateLimitSleep (fst (wait rl (fst (env attempt))))
                          @ [Get url])))
       \<and> (fst (simple_extract cfg content_div) = [] \<longrightarrow>
            simple_attempt_body u parse cfg url (snd (env attempt)) = Inr all_None
            \<and> (attempt < simple_max_retries \<longrightarrow>
                 simple_get_chapter_loop u parse cfg url env attempt srl evs
                   = (all_None, snd (simple_wait srl (fst (env attempt))),
                      evs @ map RateLimitSleep (fst (simple_wait srl (fst (env attempt))))
                          @ [Get url])))"
proof (intro conjI impI)
  assume empty: "fst (process_content u parse cfg content_div) = []"
  show raised: "attempt_body u parse cfg url (snd (env attempt))
      = Inl (ValueError ''No valid content found'')"
    using reply status body title div empty
    by (auto simp: attempt_body_def Let_def split: prod.split)
  let ?env' = "env(attempt := (fst (env attempt), Raises))"
  show "get_chapter_loop u parse cfg url env attempt rl evs
      = get_chapter_loop u parse cfg url ?env' attempt rl evs"
  proof (rule loop_cong)
    show "\<forall>k. fst (env k) = fst (?env' k)" by simp
    show "\<forall>k. attempt_body u parse cfg url (snd (env k))
                = attempt_body u parse cfg url (snd (?env' k))
            \<or> (isl (attempt_body u parse cfg url (snd (env k)))
               \<and> isl (attempt_body u parse cfg url (snd (?env' k))))"
      using raised by (simp add: attempt_body_Raises)
  qed
  show "get_chapter_loop u parse cfg url env attempt rl evs
      = get_chapter_loop u parse cfg url env (attempt + 1)
          (record_failure (snd (wait rl (fst (env attempt)))))
          (evs @ map RateLimitSleep (fst (wait rl (fst (env attempt))))
               @ [Get url, RetrySleep ((attempt + 1) * 5)])"
    if "attempt < MAX_RETRIES - 1"
    using that raised by (rule loop_retry)
  show "get_chapter_loop u parse cfg url env attempt rl evs
      = (all_None, record_failure (snd (wait rl (fst (env attempt)))),
         evs @ map RateLimitSleep (fst (wait rl (fst (env attempt)))) @ [Get url])"
    if "attempt = MAX_RETRIES - 1"
    using that raised by (rule loop_exhausted)
next
  assume empty: "fst (simple_extract cfg content_div) = []"
  show returned: "simple_attempt_body u parse cfg url (snd (env attempt)) = Inr all_None"
    using reply status body title div empty
    by (auto simp: simple_attempt_body_def Let_def split: prod.split)
  assume "attempt < simple_max_retries"
  with returned show "simple_get_chapter_loop u parse cfg url env attempt srl evs
      = (all_None, snd (simple_wait srl (fst (env attempt))),
         evs @ map RateLimitSleep (fst (simple_wait srl (fst (env attempt)))) @ [Get url])"
    by (subst simple_get_chapter_loop.simps) (simp add: Let_def split: prod.split)
qed

text \<open>
  C3 as stated fails for the separator-based script: served the page without paragraphs,
  it fetches once and returns the failure, with no retry.
\<close>

theorem empty_chapter_simple_counterexample:
  "simple_get_chapter_content small_unicode empty_page_parser (flags False False) example_url
      empty_page_world simple_limiter
     = (all_None, \<lparr> s_rate = 2, s_min_interval = 1 / 2, s_last_request_times = [0] \<rparr>,
        [Get example_url])"
  by code_simp

text \<open>The page without paragraphs, at the first attempt.\<close>

theorem zero_narrative_attempt_witness:
  "snd (empty_page_world 0) = Response 200 (render_all empty_page)
   \<and> strip (render_all empty_page) \<noteq> []
   \<and> process_chapter_title small_unicode (flags False False)
        (find_title_elem (empty_page_parser (render_all empty_page))) example_url
       = Some ''Chapter 1''
   \<and> find_content_div (empty_page_parser (render_all empty_page)) = Some (container [])
   \<and> fst (process_content small_unicode empty_page_parser (flags False False) (container [])) = []
   \<and> fst (simple_extract (flags False False) (container [])) = []
   \<and> attempt_body small_unicode empty_page_parser (flags False False) example_url (snd (empty_page_world 0))
       = Inl (ValueError ''No valid content found'')
   \<and> get_chapter_loop small_unicode empty_page_parser (flags False False) example_url empty_page_world
        0 fresh_limiter []
       = get_chapter_loop small_unicode empty_page_parser (flags False False) example_url
           (empty_page_world(0 := (fst (empty_page_world 0), Raises))) 0 fresh_limiter []
   \<and> get_chapter_loop small_unicode empty_page_parser (flags False False) example_url empty_page_world
        0 fresh_limiter []
       = get_chapter_loop small_unicode empty_page_parser (flags False False) example_url
           empty_page_world (0 + 1)
           (record_failure (snd (wait fresh_limiter (fst (empty_page_world 0)))))
           ([] @ map RateLimitSleep (fst (wait fresh_limiter (fst (empty_page_world 0))))
               @ [Get example_url, RetrySleep ((0 + 1) * 5)])
   \<and> simple_attempt_body small_unicode empty_page_parser (flags False False) example_url
        (snd (empty_page_world 0)) = Inr all_None
   \<and> simple_get_chapter_loop small_unicode empty_page_parser (flags False False) example_url
        empty_page_world 0 simple_limiter []
       = (all_None, snd (simple_wait simple_limiter (fst (empty_page_world 0))),
          [] @ map RateLimitSleep (fst (simple_wait simple_limiter (fst (empty_page_world 0))))
             @ [Get example_url])"
proof -
  have h1: "snd (empty_page_world 0) = Response 200 (render_all empty_page)"
    by (simp add: empty_page_world_def)
  have h2: "\<not> (400 \<le> (200::nat) \<and> (200::nat) < 600)" by simp
  have h3: "strip (render_all empty_page) \<noteq> []" by code_simp
  have h4: "process_chapter_title small_unicode (flags False False)
        (find_title_elem (empty_page_parser (render_all empty_page))) example_url
       = Some ''Chapter 1''" by code_simp
  have h5: "''Chapter 1'' \<noteq> []" by simp
  have h6: "find_content_div (empty_page_parser (render_all empty_page)) = Some (container [])"
    by code_simp
  have e1: "fst (process_content small_unicode empty_page_parser (flags False False) (container [])) = []"
    by code_simp
  have e2: "fst (simple_extract (flags False False) (container [])) = []"
    by code_simp
  have lt: "0 < simple_max_retries" by (simp add: simple_max_retries_def)
  have lt': "(0::nat) < MAX_RETRIES - 1" by (simp add: MAX_RETRIES_def)
  show ?thesis
    using zero_narrative_attempt [where u = small_unicode and env = empty_page_world
          and attempt = 0 and parse = empty_page_parser and rl = fresh_limiter and evs = "[]"
          and srl = simple_limiter, OF h1 h2 h3 h4 h5 h6]
      h1 h3 h4 h6 e1 e2 lt lt'
    by blast
qed

section \<open>The driver and the chapter boundary\<close>

text \<open>
  C9 is what the interactive path does and the command-line path misses. With
  \<open>--start 5 --end 3\<close> \<open>get_user_input\<close> returns the bounds unchecked and the chapter
  loop then runs over an empty range; the same numbers typed at the prompts raise the
  validation error.
\<close>

theorem cli_bounds_unchecked:
  "chapter_bounds (Some 5) (Some 3) None None = Inr (5, 3)
   \<and> chapter_numbers 5 3 = []
   \<and> chapter_bounds None None (Some 5) (Some 3)
       = Inl (ValidationError ''Start chapter cannot be greater than end chapter'')"
  by (simp add: chapter_bounds_def truthy_int_def chapter_numbers_def)

lemma get_chapter_content_Inl:
  "get_chapter_content u urlparse parse cfg url env rl = Inl e \<Longrightarrow>
     e = ValidationError ''Invalid chapter URL'' \<and> \<not> validate_url urlparse url"
  by (auto simp: get_chapter_content_def split: if_splits)

lemma get_chapter_content_valid:
  "validate_url urlparse url \<Longrightarrow>
     \<exists>res rl' tr. get_chapter_content u urlparse parse cfg url env rl = Inr (res, rl', tr)"
  by (simp add: get_chapter_content_def) (metis prod_cases3)

lemma scrape_chapters_total:
  assumes "\<forall>n\<in>set nums. validate_url urlparse (chapter_url base_url novel_id n)"
  shows "\<exists>st' bs. scrape_chapters u urlparse parse cfg base_url novel_id envs nums st = Inr st'
           \<and> progress st' = progress st @ bs \<and> length bs = length nums
           \<and> length (chapters_data st')
               = length (chapters_data st) + length (filter (\<lambda>b. b) bs)"
  using assms
proof (induction nums arbitrary: st)
  case Nil
  then show ?case by simp
next
  case (Cons n nums)
  from Cons.prems have v: "validate_url urlparse (chapter_url base_url novel_id n)" by simp
  from get_chapter_content_valid [OF v]
  obtain t c a f rl' tr where
    g: "get_chapter_content u urlparse parse cfg (chapter_url base_url novel_id n) (envs n)
          (rate_limiter st) = Inr ((t, c, a, f), rl', tr)"
    by (metis prod_cases4)
  let ?ok = "t \<noteq> None \<and> t \<noteq> Some [] \<and> c \<noteq> None \<and> c \<noteq> Some []"
  let ?st = "if ?ok
             then st\<lparr> rate_limiter := rl',
                      chapters_data := chapters_data st @
                        [\<lparr> title = the t, content = the c,
                           chapter_notes = (case a of None \<Rightarrow> [] | Some ns \<Rightarrow> ns),
                           chapter_footnotes = (case f of None \<Rightarrow> [] | Some f \<Rightarrow> f) \<rparr>],
                      progress := progress st @ [True],
                      trace := trace st @ tr \<rparr>
             else st\<lparr> rate_limiter := rl',
                      progress := progress st @ [False],
                      trace := trace st @ tr \<rparr>"
  have step: "scrape_chapters u urlparse parse cfg base_url novel_id envs (n # nums) st
      = scrape_chapters u urlparse parse cfg base_url novel_id envs nums ?st"
    using g by simp
  from Cons.prems have "\<forall>m\<in>set nums. validate_url urlparse (chapter_url base_url novel_id m)"
    by simp
  from Cons.IH [OF this, of ?st] obtain st' bs where
    r: "scrape_chapters u urlparse parse cfg base_url novel_id envs nums ?st = Inr st'"
       "progress st' = progress ?st @ bs" "length bs = length nums"
       "length (chapters_data st') = length (chapters_data ?st) + length (filter (\<lambda>b. b) bs)"
    by blast
  show ?case
  proof (cases ?ok)
    case True
    with r step show ?thesis
      by (intro exI [of _ st'] exI [of _ "True # bs"]) simp
  next
    case False
    with r step show ?thesis
      by (intro exI [of _ st'] exI [of _ "False # bs"]) simp
  qed
qed

lemma not_succeeded_all_None: "\<not> succeeded all_None"
  by (simp add: succeeded_def all_None_def)

lemma all_fail_result:
  assumes "\<forall>k<3. \<exists>e. attempt_body u parse cfg url (snd (env k)) = Inl e"
  shows "fst (get_chapter_loop u parse cfg url env 0 rl []) = all_None"
proof -
  from assms have "\<forall>k<MAX_RETRIES. \<exists>e. attempt_body u parse cfg url (snd (env k)) = Inl e"
    by (simp add: MAX_RETRIES_def)
  from all_fail_loop [OF this, of rl] show ?thesis by auto
qed

lemma fetch_results_length:
  "length (fetch_results u parse cfg base_url novel_id envs nums rl) = length nums"
  by (induction nums arbitrary: rl) (simp_all split: prod.split)

lemma fetch_results_nth:
  "i < length nums \<Longrightarrow>
     \<exists>rl'. fetch_results u parse cfg base_url novel_id envs nums rl ! i
       = fst (get_chapter_loop u parse cfg (chapter_url base_url novel_id (nums ! i))
                (envs (nums ! i)) 0 rl' [])"
proof (induction nums arbitrary: i rl)
  case Nil
  then show ?case by simp
next
  case (Cons n nums)
  obtain res rl1 tr where
    g: "get_chapter_loop u parse cfg (chapter_url base_url novel_id n) (envs n) 0 rl []
          = (res, rl1, tr)"
    by (rule prod_cases3)
  show ?case
  proof (cases i)
    case 0
    with g show ?thesis by (intro exI [of _ rl]) simp
  next
    case (Suc j)
    with Cons.prems have "j < length nums" by simp
    from Cons.IH [OF this, of rl1] obtain rl' where
      "fetch_results u parse cfg base_url novel_id envs nums rl1 ! j
       = fst (get_chapter_loop u parse cfg (chapter_url base_url novel_id (nums ! j))
                (envs (nums ! j)) 0 rl' [])" by blast
    with g Suc show ?thesis by (intro exI [of _ rl']) simp
  qed
qed

lemma scrape_chapters_results:
  assumes "\<forall>n\<in>set nums. validate_url urlparse (chapter_url base_url novel_id n)"
  shows "\<exists>st'. scrape_chapters u urlparse parse cfg base_url novel_id envs nums st = Inr st'
           \<and> progress st' = progress st
                @ map succeeded
                    (fetch_results u parse cfg base_url novel_id envs nums (rate_limiter st))
           \<and> chapters_data st' = chapters_data st
                @ map record_of (filter succeeded
                    (fetch_results u parse cfg base_url novel_id envs nums (rate_limiter st)))"
  using assms
proof (induction nums arbitrary: st)
  case Nil
  then show ?case by simp
next
  case (Cons n nums)
  from Cons.prems have v: "validate_url urlparse (chapter_url base_url novel_id n)" by simp
  obtain res rl' tr where
    l0: "get_chapter_loop u parse cfg (chapter_url base_url novel_id n) (envs n) 0
          (rate_limiter st) [] = (res, rl', tr)"
    by (rule prod_cases3)
  obtain t c a f where res: "res = (t, c, a, f)" by (rule prod_cases4)
  from l0 res have
    l: "get_chapter_loop u parse cfg (chapter_url base_url novel_id n) (envs n) 0
          (rate_limiter st) [] = ((t, c, a, f), rl', tr)"
    by simp
  with v have
    g: "get_chapter_content u urlparse parse cfg (chapter_url base_url novel_id n) (envs n)
          (rate_limiter st) = Inr ((t, c, a, f), rl', tr)"
    by (simp add: get_chapter_content_def)
  let ?ok = "t \<noteq> None \<and> t \<noteq> Some [] \<and> c \<noteq> None \<and> c \<noteq> Some []"
  let ?st = "if ?ok
             then st\<lparr> rate_limiter := rl',
                      chapters_data := chapters_data st @
                        [\<lparr> title = the t, content = the c,
                           chapter_notes = (case a of None \<Rightarrow> [] | Some ns \<Rightarrow> ns),
                           chapter_footnotes = (case f of None \<Rightarrow> [] | Some f \<Rightarrow> f) \<rparr>],
                      progress := progress st @ [True],
                      trace := trace st @ tr \<rparr>
             else st\<lparr> rate_limiter := rl',
                      progress := progress st @ [False],
                      trace := trace st @ tr \<rparr>"
  have step: "scrape_chapters u urlparse parse cfg base_url novel_id envs (n # nums) st
      = scrape_chapters u urlparse parse cfg base_url novel_id envs nums ?st"
    using g by simp
  have rs: "fetch_results u parse cfg base_url novel_id envs (n # nums) (rate_limiter st)
      = (t, c, a, f) # fetch_results u parse cfg base_url novel_id envs nums rl'"
    using l by simp
  have rl: "rate_limiter ?st = rl'" by simp
  from Cons.prems have "\<forall>m\<in>set nums. validate_url urlparse (chapter_url base_url novel_id m)"
    by simp
  from Cons.IH [OF this, of ?st] obtain st' where
    r: "scrape_chapters u urlparse parse cfg base_url novel_id envs nums ?st = Inr st'"
       "progress st' = progress ?st
          @ map succeeded (fetch_results u parse cfg base_url novel_id envs nums rl')"
       "chapters_data st' = chapters_data ?st
          @ map record_of (filter succeeded
              (fetch_results u parse cfg base_url novel_id envs nums rl'))"
    unfolding rl by blast
  show ?case
  proof (cases ?ok)
    case True
    then have "succeeded (t, c, a, f)" by (simp add: succeeded_def)
    with True r show ?thesis
      unfolding step rs by (intro exI [of _ st']) (simp add: record_of_def)
  next
    case False
    then have "\<not> succeeded (t, c, a, f)" by (simp add: succeeded_def)
    with False r show ?thesis
      unfolding step rs by (intro exI [of _ st']) simp
  qed
qed

text \<open>
  C8. The only exception that leaves \<open>get_chapter_content\<close> is the validation error for
  a URL that fails \<open>validate_url\<close>, raised before any fetch; for a valid URL the call
  returns a tuple whatever the requests, the parser and the classifier do. So when the
  chapter URLs of a run are valid, the chapter loop of \<open>main\<close> runs to its end in every
  world, and what it leaves is fixed by what the fetches returned: the progress holds,
  chapter by chapter, whether the returned tuple passed the test of \<open>main\<close>, and the
  chapter records are the records of exactly the tuples that passed, in order. A
  chapter whose three attempts all fail returns the all-\<open>None\<close> tuple, which does not pass:
  its progress entry is \<open>False\<close> (the warning) and it adds no record.
\<close>

theorem chapter_failures_are_skipped:
  "(get_chapter_content u urlparse parse cfg url env rl = Inl e \<longrightarrow>
      e = ValidationError ''Invalid chapter URL'' \<and> \<not> validate_url urlparse url)
   \<and> (validate_url urlparse url \<longrightarrow>
        (\<exists>res rl' tr. get_chapter_content u urlparse parse cfg url env rl = Inr (res, rl', tr)))
   \<and> ((\<forall>n\<in>set nums. validate_url urlparse (chapter_url base_url novel_id n)) \<longrightarrow>
        (\<exists>st' bs. scrape_chapters u urlparse parse cfg base_url novel_id envs nums st = Inr st'
           \<and> progress st' = progress st @ bs \<and> length bs = length nums
           \<and> length (chapters_data st')
               = length (chapters_data st) + length (filter (\<lambda>b. b) bs)))
   \<and> ((\<forall>n\<in>set nums. validate_url urlparse (chapter_url base_url novel_id n)) \<longrightarrow>
        (let rs = fetch_results u parse cfg base_url novel_id envs nums (rate_limiter st) in
         \<exists>st'. scrape_chapters u urlparse parse cfg base_url novel_id envs nums st = Inr st'
           \<and> progress st' = progress st @ map succeeded rs
           \<and> chapters_data st' = chapters_data st @ map record_of (filter succeeded rs)
           \<and> length rs = length nums
           \<and> (\<forall>i<length nums.
                 (\<forall>k<3. \<exists>e. attempt_body u parse cfg (chapter_url base_url novel_id (nums ! i))
                               (snd (envs (nums ! i) k)) = Inl e) \<longrightarrow>
                 rs ! i = all_None \<and> \<not> succeeded (rs ! i))))
   \<and> \<not> succeeded all_None"
proof -
  let ?rs = "fetch_results u parse cfg base_url novel_id envs nums (rate_limiter st)"
  have failed: "?rs ! i = all_None \<and> \<not> succeeded (?rs ! i)"
    if "i < length nums"
      and "\<forall>k<3. \<exists>e. attempt_body u parse cfg (chapter_url base_url novel_id (nums ! i))
                        (snd (envs (nums ! i) k)) = Inl e" for i
  proof -
    from fetch_results_nth [OF that(1), of u parse cfg base_url novel_id envs "rate_limiter st"]
    obtain rl' where
      "?rs ! i = fst (get_chapter_loop u parse cfg (chapter_url base_url novel_id (nums ! i))
                        (envs (nums ! i)) 0 rl' [])" by blast
    with all_fail_result [where env = "envs (nums ! i)" and rl = rl', OF that(2)]
    show ?thesis by (simp add: not_succeeded_all_None)
  qed
  have results: "let rs = ?rs in
         \<exists>st'. scrape_chapters u urlparse parse cfg base_url novel_id envs nums st = Inr st'
           \<and> progress st' = progress st @ map succeeded rs
           \<and> chapters_data st' = chapters_data st @ map record_of (filter succeeded rs)
           \<and> length rs = length nums
           \<and> (\<forall>i<length nums.
                 (\<forall>k<3. \<exists>e. attempt_body u parse cfg (chapter_url base_url novel_id (nums ! i))
                               (snd (envs (nums ! i) k)) = Inl e) \<longrightarrow>
                 rs ! i = all_None \<and> \<not> succeeded (rs ! i))"
    if v: "\<forall>n\<in>set nums. validate_url urlparse (chapter_url base_url novel_id n)"
  proof -
    from scrape_chapters_results [OF v, of u parse cfg envs st] obtain st' where
      "scrape_chapters u urlparse parse cfg base_url novel_id envs nums st = Inr st'"
      "progress st' = progress st @ map succeeded ?rs"
      "chapters_data st' = chapters_data st @ map record_of (filter succeeded ?rs)"
      by blast
    with failed show ?thesis
      unfolding Let_def
      by (intro exI [of _ st']) (simp add: fetch_results_length not_succeeded_all_None)
  qed
  from results get_chapter_content_Inl [of u urlparse parse cfg url env rl e]
    get_chapter_content_valid [of urlparse url u parse cfg env rl]
    scrape_chapters_total [of nums urlparse base_url novel_id u parse cfg envs st]
    not_succeeded_all_None
  show ?thesis by blast
qed

text \<open>
  Two chapters, the first failing at every attempt: it is skipped and the second is
  collected. A URL without scheme is refused before any fetch.
\<close>

theorem chapter_failures_are_skipped_witness:
  "validate_url example_urlparse (chapter_url ''http://example.org/'' ''novel'' 1)
   \<and> validate_url example_urlparse (chapter_url ''http://example.org/'' ''novel'' 2)
   \<and> attempt_body small_unicode story_parser (flags False False)
        (chapter_url ''http://example.org/'' ''novel'' 1) (snd (two_chapter_worlds 1 0))
       = Inl RequestException
   \<and> attempt_body small_unicode story_parser (flags False False)
        (chapter_url ''http://example.org/'' ''novel'' 1) (snd (two_chapter_worlds 1 1))
       = Inl RequestException
   \<and> attempt_body small_unicode story_parser (flags False False)
        (chapter_url ''http://example.org/'' ''novel'' 1) (snd (two_chapter_worlds 1 2))
       = Inl RequestException
   \<and> fetch_results small_unicode story_parser (flags False False)
        ''http://example.org/'' ''novel'' two_chapter_worlds (chapter_numbers 1 2)
        (rate_limiter initial_run)
       = [all_None, (Some ''Chapter 2'', Some ''<p>Once upon a time</p>'', Some [], Some [])]
   \<and> map_sum id (\<lambda>st. (progress st, chapters_data st))
        (scrape_chapters small_unicode example_urlparse story_parser (flags False False)
           ''http://example.org/'' ''novel'' two_chapter_worlds (chapter_numbers 1 2)
           initial_run)
       = Inr ([False, True],
              [\<lparr> title = ''Chapter 2'', content = ''<p>Once upon a time</p>'',
                 chapter_notes = [], chapter_footnotes = [] \<rparr>])
   \<and> get_chapter_content small_unicode example_urlparse story_parser (flags False False)
        ''example.org/novel/chapter-1'' failing_world fresh_limiter
       = Inl (ValidationError ''Invalid chapter URL'')
   \<and> \<not> validate_url example_urlparse ''example.org/novel/chapter-1''"
proof -
  let ?rs = "fetch_results small_unicode story_parser (flags False False)
        ''http://example.org/'' ''novel'' two_chapter_worlds (chapter_numbers 1 2)
        (rate_limiter initial_run)"
  let ?run = "scrape_chapters small_unicode example_urlparse story_parser (flags False False)
           ''http://example.org/'' ''novel'' two_chapter_worlds (chapter_numbers 1 2)
           initial_run"
  have v1: "validate_url example_urlparse (chapter_url ''http://example.org/'' ''novel'' 1)"
    by code_simp
  have v2: "validate_url example_urlparse (chapter_url ''http://example.org/'' ''novel'' 2)"
    by code_simp
  have nums: "chapter_numbers 1 2 = [1, 2]" by code_simp
  have v: "\<forall>n\<in>set (chapter_numbers 1 2).
             validate_url example_urlparse (chapter_url ''http://example.org/'' ''novel'' n)"
    using v1 v2 by (simp add: nums)
  have f: "attempt_body small_unicode story_parser (flags False False)
        (chapter_url ''http://example.org/'' ''novel'' 1) (snd (two_chapter_worlds 1 k))
       = Inl RequestException" for k
    by (simp add: attempt_body_def two_chapter_worlds_def failing_world_def)
  have rs: "?rs = [all_None,
                   (Some ''Chapter 2'', Some ''<p>Once upon a time</p>'', Some [], Some [])]"
    by code_simp
  have s: "map succeeded
             [all_None, (Some ''Chapter 2'', Some ''<p>Once upon a time</p>'', Some [], Some [])]
           = [False, True]"
    by (simp add: succeeded_def all_None_def)
  have r: "map record_of (filter succeeded
             [all_None, (Some ''Chapter 2'', Some ''<p>Once upon a time</p>'', Some [], Some [])])
           = [\<lparr> title = ''Chapter 2'', content = ''<p>Once upon a time</p>'',
                 chapter_notes = [], chapter_footnotes = [] \<rparr>]"
    by (simp add: succeeded_def all_None_def record_of_def)
  have bad: "get_chapter_content small_unicode example_urlparse story_parser (flags False False)
        ''example.org/novel/chapter-1'' failing_world fresh_limiter
       = Inl (ValidationError ''Invalid chapter URL'')"
    by code_simp
  from chapter_failures_are_skipped [where u = small_unicode and urlparse = example_urlparse
      and parse = story_parser and cfg = "flags False False"
      and url = "''example.org/novel/chapter-1''" and env = failing_world
      and rl = fresh_limiter and e = "ValidationError ''Invalid chapter URL''"
      and nums = "chapter_numbers 1 2" and base_url = "''http://example.org/''"
      and novel_id = "''novel''" and envs = two_chapter_worlds and st = initial_run]
    bad v
  have nv: "\<not> validate_url example_urlparse ''example.org/novel/chapter-1''"
    and "\<exists>st'. ?run = Inr st'
           \<and> progress st' = progress initial_run @ map succeeded ?rs
           \<and> chapters_data st' = chapters_data initial_run
                @ map record_of (filter succeeded ?rs)"
    unfolding Let_def by blast+
  then obtain st' where st': "?run = Inr st'"
      "progress st' = progress initial_run @ map succeeded ?rs"
      "chapters_data st' = chapters_data initial_run @ map record_of (filter succeeded ?rs)"
    by blast
  have empty: "progress initial_run = []" "chapters_data initial_run = []"
    by (simp_all add: initial_run_def)
  from st'(2) have p: "progress st' = [False, True]" by (simp only: rs s empty append_Nil)
  from st'(3) have c: "chapters_data st'
      = [\<lparr> title = ''Chapter 2'', content = ''<p>Once upon a time</p>'',
           chapter_notes = [], chapter_footnotes = [] \<rparr>]"
    by (simp only: rs r empty append_Nil)
  have "map_sum id (\<lambda>st. (progress st, chapters_data st)) ?run
       = Inr ([False, True],
              [\<lparr> title = ''Chapter 2'', content = ''<p>Once upon a time</p>'',
                 chapter_notes = [], chapter_footnotes = [] \<rparr>])"
    by (simp add: st'(1) p c)
  with v1 v2 f rs bad nv show ?thesis by simp
qed

section \<open>Formatting\<close>

lemma processed_foldl:
  "foldl (\<lambda>acc p. acc @ [f p]) acc ps = acc @ map f ps"
  by (induction ps arbitrary: acc) simp_all

lemma join_append:
  "xs \<noteq> [] \<Longrightarrow> ys \<noteq> [] \<Longrightarrow> join sep (xs @ ys) = join sep xs @ sep @ join sep ys"
proof (induction sep xs rule: join.induct)
  case (1 sep)
  then show ?case by simp
next
  case (2 sep x)
  then show ?case by (cases ys) simp_all
next
  case (3 sep x y ys')
  then show ?case by simp
qed

lemma format_chapter_content_map:
  "format_chapter_content parse cfg ps fn
     = join [CHR 0x0A] (map (format_paragraph parse cfg fn) ps)"
  by (simp add: format_chapter_content_def processed_foldl)

lemma strip_one: "strip (text_of (Elem ''sup'' [] [Text ''1''])) = ''1''"
  by code_simp

lemma wrap_sup_paragraph:
  "has_key fn ''1'' \<Longrightarrow>
     map (wrap_footnote_refs fn) sup_paragraph_doc
       = [Elem ''p'' []
            [Text ''text'',
             Elem ''a'' [(''href'', ''#footnote-1'')] [Elem ''sup'' [] [Text ''1'']]]]"
  by (simp add: sup_paragraph_doc_def strip_one Let_def del: text_of.simps)

lemma render_linked:
  "render_all [Elem ''p'' []
            [Text ''text'',
             Elem ''a'' [(''href'', ''#footnote-1'')] [Elem ''sup'' [] [Text ''1'']]]]
     = linked_paragraph"
  by code_simp

lemma sub_sup_paragraph: "sub_between ''<sup>'' ''</sup>'' False sup_paragraph = ''<p>text</p>''"
  by code_simp

text \<open>
  C6. For the paragraph \<open><p>text<sup>1</sup></p>\<close> and a footnote table that has the key
  \<open>1\<close>: with footnotes enabled (and the parser reading the paragraph as it is written)
  the formatted content is the paragraph with the \<open>sup\<close> inside an \<open>a\<close> element whose
  \<open>href\<close> is \<open>#footnote-1\<close>; with footnotes disabled it is \<open><p>text</p>\<close>, the \<open>sup\<close> element
  gone and no anchor. A single paragraph is formatted on its own, and the content of
  two non-empty runs of paragraphs is the content of the first, a newline, and the
  content of the second: paragraphs are joined by newlines in their order.
\<close>

theorem footnote_linking:
  "(INCLUDE_FOOTNOTES cfg \<and> has_key fn ''1'' \<and> parse sup_paragraph = sup_paragraph_doc \<longrightarrow>
      format_chapter_content parse cfg [sup_paragraph] fn = linked_paragraph)
   \<and> (\<not> INCLUDE_FOOTNOTES cfg \<longrightarrow>
        format_chapter_content parse cfg [sup_paragraph] fn = ''<p>text</p>'')
   \<and> format_chapter_content parse cfg [p] fn = format_paragraph parse cfg fn p
   \<and> (ps \<noteq> [] \<and> qs \<noteq> [] \<longrightarrow>
        format_chapter_content parse cfg (ps @ qs) fn
          = format_chapter_content parse cfg ps fn @ [CHR 0x0A]
            @ format_chapter_content parse cfg qs fn)"
proof (intro conjI impI)
  assume "INCLUDE_FOOTNOTES cfg \<and> has_key fn ''1'' \<and> parse sup_paragraph = sup_paragraph_doc"
  then show "format_chapter_content parse cfg [sup_paragraph] fn = linked_paragraph"
    by (simp add: format_chapter_content_map format_paragraph_def wrap_sup_paragraph
          render_linked)
next
  assume "\<not> INCLUDE_FOOTNOTES cfg"
  then show "format_chapter_content parse cfg [sup_paragraph] fn = ''<p>text</p>''"
    by (simp add: format_chapter_content_map format_paragraph_def sub_sup_paragraph)
next
  show "format_chapter_content parse cfg [p] fn = format_paragraph parse cfg fn p"
    by (simp add: format_chapter_content_map)
next
  assume "ps \<noteq> [] \<and> qs \<noteq> []"
  then show "format_chapter_content parse cfg (ps @ qs) fn
          = format_chapter_content parse cfg ps fn @ [CHR 0x0A]
            @ format_chapter_content parse cfg qs fn"
    by (simp add: format_chapter_content_map join_append)
qed

text \<open>The example paragraph under both settings, and two paragraphs joined.\<close>

theorem footnote_linking_witness:
  "has_key [(''1'', ''1. a note: text'')] ''1''
   \<and> sup_parser sup_paragraph = sup_paragraph_doc
   \<and> format_chapter_content sup_parser (flags True False) [sup_paragraph]
        [(''1'', ''1. a note: text'')] = linked_paragraph
   \<and> format_chapter_content sup_parser (flags False False) [sup_paragraph] [] = ''<p>text</p>''
   \<and> format_chapter_content sup_parser (flags False False)
        ([''<p>one</p>''] @ [sup_paragraph]) []
       = ''<p>one</p>'' @ [CHR 0x0A] @ ''<p>text</p>''"
proof -
  have k: "has_key [(''1'', ''1. a note: text'')] ''1''" by (simp add: has_key_def)
  have d: "sup_parser sup_paragraph = sup_paragraph_doc"
    by (simp add: sup_parser_def parse_as_def)
  have one: "format_paragraph sup_parser (flags False False) [] ''<p>one</p>'' = ''<p>one</p>''"
    by code_simp
  have on: "INCLUDE_FOOTNOTES (flags True False)" and off: "\<not> INCLUDE_FOOTNOTES (flags False False)"
    by (simp_all add: flags_def)
  from footnote_linking [of "flags True False" "[(''1'', ''1. a note: text'')]" sup_parser]
    k d on
  have a: "format_chapter_content sup_parser (flags True False) [sup_paragraph]
        [(''1'', ''1. a note: text'')] = linked_paragraph" by blast
  from footnote_linking [of "flags False False" "[]" sup_parser "''<p>one</p>''"
      "[''<p>one</p>'']" "[sup_paragraph]"] off one
  have b: "format_chapter_content sup_parser (flags False False) [sup_paragraph] [] = ''<p>text</p>''"
    and c: "format_chapter_content sup_parser (flags False False)
        ([''<p>one</p>''] @ [sup_paragraph]) []
       = ''<p>one</p>'' @ [CHR 0x0A] @ ''<p>text</p>''"
    by auto
  from k d a b c show ?thesis by blast
qed

lemma text_under_wrap: "text_under cls (wrap_footnote_refs fn n) = text_under cls n"
proof (induction n)
  case (Text s)
  show ?case by simp
next
  case (Comment s)
  show ?case by simp
next
  case (Special c s)
  show ?case by simp
next
  case (Elem name attrs kids)
  then have m: "map (\<lambda>k. text_under cls (wrap_footnote_refs fn k)) kids
      = map (text_under cls) kids"
    by (intro map_cong) simp_all
  show ?case by (simp add: Let_def comp_def m del: text_of.simps)
qed

lemma ordinary_elements:
  "map_of string_containers ''sup'' = None" "map_of string_containers ''a'' = None"
  by (simp_all add: string_containers_def)

lemma text_of_wrap: "text_of (wrap_footnote_refs fn n) = text_of n"
proof (cases n)
  case (Text s)
  then show ?thesis by simp
next
  case (Comment s)
  then show ?thesis by simp
next
  case (Special c s)
  then show ?thesis by simp
next
  case (Elem name attrs kids)
  let ?e = "Elem name attrs (map (wrap_footnote_refs fn) kids)"
  have inner: "text_under cls ?e = text_under cls n" for cls
    using text_under_wrap [of cls fn] by (simp add: Elem comp_def cong: map_cong)
  show ?thesis
  proof (cases "name = ''sup'' \<and> has_key fn (strip (text_of n))")
    case True
    then have "wrap_footnote_refs fn n
        = Elem ''a'' [(''href'', ''#footnote-'' @ strip (text_of n))] [?e]"
      by (auto simp add: Elem Let_def simp del: text_of.simps)
    then have "text_of (wrap_footnote_refs fn n) = text_under None ?e"
      by (simp add: ordinary_elements)
    also have "\<dots> = text_under None n" by (rule inner)
    also have "\<dots> = text_of n" using True by (simp add: Elem ordinary_elements)
    finally show ?thesis .
  next
    case False
    then have "wrap_footnote_refs fn n = ?e"
      by (auto simp add: Elem Let_def simp del: text_of.simps)
    then have "text_of (wrap_footnote_refs fn n) = text_under (map_of string_containers name) ?e"
      by simp
    also have "\<dots> = text_under (map_of string_containers name) n" by (rule inner)
    also have "\<dots> = text_of n" by (simp add: Elem)
    finally show ?thesis .
  qed
qed

lemma matched_sups_Elem:
  "matched_sups fn (Elem name attrs kids)
     = (if name = ''sup'' \<and> has_key fn (strip (text_of (Elem name attrs kids)))
        then [Elem name attrs kids] else [])
       @ concat (map (matched_sups fn) kids)"
proof -
  have "matched_sups fn
      = (\<lambda>n. filter (\<lambda>e. is_tag [''sup''] e \<and> has_key fn (strip (text_of e)))
                (n # descendants n))"
    by (rule ext) (simp add: matched_sups_def)
  then show ?thesis by (simp add: filter_concat comp_def del: text_of.simps)
qed

lemma wrap_unmatched: "matched_sups fn n = [] \<Longrightarrow> wrap_footnote_refs fn n = n"
proof (induction n)
  case (Text s)
  show ?case by simp
next
  case (Comment s)
  show ?case by simp
next
  case (Special c s)
  show ?case by simp
next
  case (Elem name attrs kids)
  from Elem.prems have top: "\<not> (name = ''sup'' \<and> has_key fn (strip (text_of (Elem name attrs kids))))"
    and kids: "\<forall>k\<in>set kids. matched_sups fn k = []"
    by (auto simp: matched_sups_Elem split: if_splits)
  with Elem.IH have "map (wrap_footnote_refs fn) kids = kids"
    by (intro map_idI) simp
  with top show ?case by (auto simp: Let_def)
qed

lemma anchors_Elem:
  "anchors (Elem name attrs kids)
     = (if name = ''a'' then [Elem name attrs kids] else []) @ concat (map anchors kids)"
proof -
  have a: "anchors = (\<lambda>n. filter (is_tag [''a'']) (n # descendants n))"
    by (rule ext) (simp add: anchors_def)
  show ?thesis unfolding a by (simp add: filter_concat comp_def)
qed

lemma length_concat_map: "length (concat (map f xs)) = sum_list (map (\<lambda>x. length (f x)) xs)"
  by (simp add: length_concat comp_def)

lemma anchors_wrap:
  "length (anchors (wrap_footnote_refs fn n))
     = length (anchors n) + length (matched_sups fn n)"
proof (induction n)
  case (Text s)
  show ?case by (simp add: anchors_def matched_sups_def)
next
  case (Comment s)
  show ?case by (simp add: anchors_def matched_sups_def)
next
  case (Special c s)
  show ?case by (simp add: anchors_def matched_sups_def)
next
  case (Elem name attrs kids)
  have "sum_list (map (\<lambda>k. length (anchors (wrap_footnote_refs fn k))) kids)
      = sum_list (map (\<lambda>k. length (anchors k) + length (matched_sups fn k)) kids)"
    using Elem.IH by (intro arg_cong [where f = sum_list] map_cong) simp_all
  also have "\<dots> = sum_list (map (\<lambda>k. length (anchors k)) kids)
                 + sum_list (map (\<lambda>k. length (matched_sups fn k)) kids)"
    by (simp add: sum_list_addf)
  finally have kids: "sum_list (map (\<lambda>k. length (anchors (wrap_footnote_refs fn k))) kids)
      = sum_list (map (\<lambda>k. length (anchors k)) kids)
        + sum_list (map (\<lambda>k. length (matched_sups fn k)) kids)" .
  show ?case
    by (simp add: Let_def anchors_Elem matched_sups_Elem length_concat_map comp_def kids
          del: text_of.simps)
qed

text \<open>
  C10. With footnotes enabled a paragraph is formatted by parsing it, processing every
  node with \<open>wrap_footnote_refs\<close> and writing the result out. That processing leaves
  text, comments and the strings of the other classes as they are; an element that is not a \<open>sup\<close> whose trimmed text is a
  key keeps its name and attributes and its place, only its children being processed
  (so a \<open>sup\<close> without a matching key is neither wrapped nor removed); a \<open>sup\<close> whose
  trimmed text is a key is put, otherwise unchanged, inside a new \<open>a\<close> element with
  \<open>href\<close> \<open>#footnote-{key}\<close>. A tree without a matching \<open>sup\<close> is returned unchanged, no
  element's text changes, and the number of \<open>a\<close> elements grows by exactly the number of
  matching \<open>sup\<close> elements.
\<close>

theorem footnote_wrapping_frame:
  "(INCLUDE_FOOTNOTES cfg \<longrightarrow>
      format_paragraph parse cfg fn p = render_all (map (wrap_footnote_refs fn) (parse p)))
   \<and> wrap_footnote_refs fn (Text s) = Text s
   \<and> wrap_footnote_refs fn (Comment s) = Comment s
   \<and> wrap_footnote_refs fn (Special c s) = Special c s
   \<and> (\<not> (name = ''sup'' \<and> has_key fn (strip (text_of (Elem name attrs kids)))) \<longrightarrow>
        wrap_footnote_refs fn (Elem name attrs kids)
          = Elem name attrs (map (wrap_footnote_refs fn) kids))
   \<and> (name = ''sup'' \<and> has_key fn (strip (text_of (Elem name attrs kids))) \<longrightarrow>
        wrap_footnote_refs fn (Elem name attrs kids)
          = Elem ''a'' [(''href'', ''#footnote-'' @ strip (text_of (Elem name attrs kids)))]
              [Elem name attrs (map (wrap_footnote_refs fn) kids)])
   \<and> (matched_sups fn n = [] \<longrightarrow> wrap_footnote_refs fn n = n)
   \<and> text_of (wrap_footnote_refs fn n) = text_of n
   \<and> length (anchors (wrap_footnote_refs fn n))
       = length (anchors n) + length (matched_sups fn n)"
  using wrap_unmatched [of fn n] text_of_wrap [of fn n] anchors_wrap [of fn n]
  by (auto simp: format_paragraph_def Let_def)

text \<open>
  A \<open>sup\<close> without a key, one with a key, a paragraph without any match, and the
  paragraph with several \<open>sup\<close> elements.
\<close>

theorem footnote_wrapping_frame_witness:
  "INCLUDE_FOOTNOTES (flags True False)
   \<and> format_paragraph sup_parser (flags True False) two_notes sup_paragraph = linked_paragraph
   \<and> \<not> has_key two_notes (strip (text_of (Elem ''sup'' [] [Text ''9''])))
   \<and> wrap_footnote_refs two_notes (Elem ''sup'' [] [Text ''9'']) = Elem ''sup'' [] [Text ''9'']
   \<and> has_key two_notes (strip (text_of (Elem ''sup'' [] [Text '' 1 ''])))
   \<and> wrap_footnote_refs two_notes (Elem ''sup'' [] [Text '' 1 ''])
       = Elem ''a'' [(''href'', ''#footnote-1'')] [Elem ''sup'' [] [Text '' 1 '']]
   \<and> matched_sups two_notes (Elem ''p'' [] [Text ''a'', Elem ''sup'' [] [Text ''9'']]) = []
   \<and> wrap_footnote_refs two_notes (Elem ''p'' [] [Text ''a'', Elem ''sup'' [] [Text ''9'']])
       = Elem ''p'' [] [Text ''a'', Elem ''sup'' [] [Text ''9'']]
   \<and> wrap_footnote_refs two_notes nested_sups
       = Elem ''p'' [(''class'', ''x'')]
           [Text ''a'',
            Elem ''a'' [(''href'', ''#footnote-1'')] [Elem ''sup'' [] [Text '' 1 '']],
            Comment ''c'',
            Elem ''sup'' [] [Text ''9''],
            Elem ''sup'' [(''id'', ''r'')]
              [Text ''2'', Elem ''a'' [(''href'', ''#footnote-2'')] [Elem ''sup'' [] [Text ''2'']]]]
   \<and> length (anchors (wrap_footnote_refs two_notes nested_sups)) = 2"
proof -
  have on: "INCLUDE_FOOTNOTES (flags True False)" by (simp add: flags_def)
  have r: "render_all (map (wrap_footnote_refs two_notes) (sup_parser sup_paragraph))
      = linked_paragraph" by code_simp
  have k9: "\<not> has_key two_notes (strip (text_of (Elem ''sup'' [] [Text ''9''])))"
    by code_simp
  have k1: "has_key two_notes (strip (text_of (Elem ''sup'' [] [Text '' 1 ''])))"
    by code_simp
  have s1: "strip (text_of (Elem ''sup'' [] [Text '' 1 ''])) = ''1''" by code_simp
  have m: "matched_sups two_notes (Elem ''p'' [] [Text ''a'', Elem ''sup'' [] [Text ''9'']]) = []"
    by code_simp
  have n: "wrap_footnote_refs two_notes nested_sups
       = Elem ''p'' [(''class'', ''x'')]
           [Text ''a'',
            Elem ''a'' [(''href'', ''#footnote-1'')] [Elem ''sup'' [] [Text '' 1 '']],
            Comment ''c'',
            Elem ''sup'' [] [Text ''9''],
            Elem ''sup'' [(''id'', ''r'')]
              [Text ''2'', Elem ''a'' [(''href'', ''#footnote-2'')] [Elem ''sup'' [] [Text ''2'']]]]"
    by code_simp
  have a: "length (anchors nested_sups) = 0" "length (matched_sups two_notes nested_sups) = 2"
    by code_simp+
  from footnote_wrapping_frame [where cfg = "flags True False" and parse = sup_parser
      and fn = two_notes and p = sup_paragraph and name = "''sup''" and attrs = "[]"
      and kids = "[Text ''9'']"
      and n = "Elem ''p'' [] [Text ''a'', Elem ''sup'' [] [Text ''9'']]"] on r k9 m
  have 1: "format_paragraph sup_parser (flags True False) two_notes sup_paragraph
      = linked_paragraph"
    and 2: "wrap_footnote_refs two_notes (Elem ''sup'' [] [Text ''9''])
      = Elem ''sup'' [] [Text ''9'']"
    and 3: "wrap_footnote_refs two_notes (Elem ''p'' [] [Text ''a'', Elem ''sup'' [] [Text ''9'']])
       = Elem ''p'' [] [Text ''a'', Elem ''sup'' [] [Text ''9'']]"
    by simp_all
  from footnote_wrapping_frame [where cfg = "flags True False" and parse = sup_parser
      and fn = two_notes and p = sup_paragraph and name = "''sup''" and attrs = "[]"
      and kids = "[Text '' 1 '']" and n = nested_sups] k1 s1 a
  have 4: "wrap_footnote_refs two_notes (Elem ''sup'' [] [Text '' 1 ''])
       = Elem ''a'' [(''href'', ''#footnote-1'')] [Elem ''sup'' [] [Text '' 1 '']]"
    and 5: "length (anchors (wrap_footnote_refs two_notes nested_sups)) = 2"
    by simp_all
  from on k9 k1 m n 1 2 3 4 5 show ?thesis by blast
qed

end
